theory Spec2Isabelle
  imports Complex_Main
begin

section \<open>Numbers, errors and vectors\<close>

text \<open>
  The library computes on JavaScript numbers. They are modelled as the reals of HOL:
  every theorem below is about the arithmetic the code intends, free of rounding.
  The value of \<^verbatim>\<open>Sylvester.precision\<close> is declared in a module that is not among the
  sources, so every function that reads it takes it as its first argument \<open>prec\<close>.
\<close>

datatype error =
    InvalidOperationError
  | DimensionalityMismatchError
  | TypeError
  | NoCandidateError

text \<open>
  A vector after \<^verbatim>\<open>to3D\<close> / \<^verbatim>\<open>Vector.toElements(_, 3)\<close>: exactly three components,
  \<open>e0\<close>, \<open>e1\<close>, \<open>e2\<close> for \<^verbatim>\<open>elements[0..2]\<close>. A polygon vertex is such a vector.
\<close>

datatype vec = Vec (e0: real) (e1: real) (e2: real)

text \<open>
  Modelled from the spec: the module \<^verbatim>\<open>vector.js\<close> is missing; the spec lists its
  operations as elementary vector algebra (add, subtract, cross, dot, modulus,
  angle-between in \<open>[0, \<pi>]\<close> with a null sentinel for zero vectors, unit vector,
  component-wise equality within an epsilon, epsilon-based parallel and antiparallel
  tests). A null result is \<open>None\<close>.
\<close>

definition add :: "vec \<Rightarrow> vec \<Rightarrow> vec" where
  "add a b = Vec (e0 a + e0 b) (e1 a + e1 b) (e2 a + e2 b)"

definition subtract :: "vec \<Rightarrow> vec \<Rightarrow> vec" where
  "subtract a b = Vec (e0 a - e0 b) (e1 a - e1 b) (e2 a - e2 b)"

definition dot :: "vec \<Rightarrow> vec \<Rightarrow> real" where
  "dot a b = e0 a * e0 b + e1 a * e1 b + e2 a * e2 b"

definition cross :: "vec \<Rightarrow> vec \<Rightarrow> vec" where
  "cross a b = Vec (e1 a * e2 b - e2 a * e1 b)
                   (e2 a * e0 b - e0 a * e2 b)
                   (e0 a * e1 b - e1 a * e0 b)"

definition modulus :: "vec \<Rightarrow> real" where
  "modulus a = sqrt (dot a a)"

definition angleFrom :: "vec \<Rightarrow> vec \<Rightarrow> real option" where
  "angleFrom a b =
     (if modulus a * modulus b = 0 then None
      else Some (arccos (dot a b / (modulus a * modulus b))))"

definition toUnitVector :: "vec \<Rightarrow> vec" where
  "toUnitVector a =
     (let r = modulus a in if r = 0 then a else Vec (e0 a / r) (e1 a / r) (e2 a / r))"

definition eql :: "real \<Rightarrow> vec \<Rightarrow> vec \<Rightarrow> bool" where
  "eql eps a b \<longleftrightarrow>
     \<bar>e0 a - e0 b\<bar> \<le> eps \<and> \<bar>e1 a - e1 b\<bar> \<le> eps \<and> \<bar>e2 a - e2 b\<bar> \<le> eps"

definition isParallelTo :: "real \<Rightarrow> vec \<Rightarrow> vec \<Rightarrow> bool option" where
  "isParallelTo prec a b = map_option (\<lambda>t. t \<le> prec) (angleFrom a b)"

definition isAntiparallelTo :: "real \<Rightarrow> vec \<Rightarrow> vec \<Rightarrow> bool option" where
  "isAntiparallelTo prec a b = map_option (\<lambda>t. \<bar>t - pi\<bar> \<le> prec) (angleFrom a b)"

text \<open>
  JavaScript reads a null as the number 0 in a comparison or in \<^verbatim>\<open>Math.abs\<close>, and as
  false in a condition.
\<close>

definition num :: "real option \<Rightarrow> real" where
  "num t = (case t of None \<Rightarrow> 0 | Some x \<Rightarrow> x)"

definition truthy :: "bool option \<Rightarrow> bool" where
  "truthy b = (case b of None \<Rightarrow> False | Some x \<Rightarrow> x)"

section \<open>Line\<close>

record line =
  line_anchor :: vec
  line_direction :: vec

text \<open>The constructor: a zero direction raises, any other is normalised.\<close>

definition Line_new :: "vec \<Rightarrow> vec \<Rightarrow> error + line" where
  "Line_new anchor direction =
     (let md = modulus direction in
      if md = 0 then Inl DimensionalityMismatchError
      else Inr \<lparr> line_anchor = anchor,
                 line_direction = Vec (e0 direction / md) (e1 direction / md) (e2 direction / md) \<rparr>)"

text \<open>\<^verbatim>\<open>isParallelTo\<close> with a Line operand.\<close>

definition Line_isParallelTo :: "line \<Rightarrow> line \<Rightarrow> real \<Rightarrow> bool" where
  "Line_isParallelTo l obj epsilon =
     (let theta = num (angleFrom (line_direction l) (line_direction obj)) in
      \<bar>theta\<bar> \<le> epsilon \<or> \<bar>theta - pi\<bar> \<le> epsilon)"

text \<open>\<^verbatim>\<open>distanceFrom\<close> with a point operand (the last branch of the method).\<close>

definition Line_distanceFrom_point :: "line \<Rightarrow> vec \<Rightarrow> real" where
  "Line_distanceFrom_point l P =
     (let A = line_anchor l; D = line_direction l;
          PA1 = e0 P - e0 A; PA2 = e1 P - e1 A; PA3 = e2 P - e2 A;
          modPA = sqrt (PA1 * PA1 + PA2 * PA2 + PA3 * PA3) in
      if modPA = 0 then 0
      else
        let cosTheta = (PA1 * e0 D + PA2 * e1 D + PA3 * e2 D) / modPA;
            sin2 = 1 - cosTheta * cosTheta in
        \<bar>modPA * sqrt (if sin2 < 0 then 0 else sin2)\<bar>)"

text \<open>\<^verbatim>\<open>distanceFrom\<close> with a Line operand.\<close>

definition Line_distanceFrom :: "real \<Rightarrow> line \<Rightarrow> line \<Rightarrow> real" where
  "Line_distanceFrom prec l obj =
     (if Line_isParallelTo l obj prec then Line_distanceFrom_point l (line_anchor obj)
      else
        let N = toUnitVector (cross (line_direction l) (line_direction obj));
            A = line_anchor l; B = line_anchor obj in
        \<bar>(e0 A - e0 B) * e0 N + (e1 A - e1 B) * e1 N + (e2 A - e2 B) * e2 N\<bar>)"

text \<open>\<^verbatim>\<open>contains\<close> with a point operand.\<close>

definition Line_contains :: "line \<Rightarrow> vec \<Rightarrow> real \<Rightarrow> bool" where
  "Line_contains l obj epsilon = (Line_distanceFrom_point l obj \<le> epsilon)"

text \<open>
  \<^verbatim>\<open>intersects\<close> with a Line operand. The parallel test runs at the global precision,
  only the distance is compared with the caller's epsilon; \<^verbatim>\<open>&&\<close> evaluates the
  distance only for lines that are not parallel.
\<close>

definition Line_intersects :: "real \<Rightarrow> line \<Rightarrow> line \<Rightarrow> real \<Rightarrow> bool" where
  "Line_intersects prec l obj epsilon =
     (\<not> Line_isParallelTo l obj prec \<and> Line_distanceFrom prec l obj \<le> epsilon)"

text \<open>\<^verbatim>\<open>intersectionWith\<close> with a Line operand; null is \<open>None\<close>.\<close>

definition Line_intersectionWith :: "real \<Rightarrow> line \<Rightarrow> line \<Rightarrow> vec option" where
  "Line_intersectionWith prec l obj =
     (if \<not> Line_intersects prec l obj prec then None
      else
        let P = line_anchor l; X = line_direction l;
            Q = line_anchor obj; Y = line_direction obj;
            X1 = e0 X; X2 = e1 X; X3 = e2 X;
            Y1 = e0 Y; Y2 = e1 Y; Y3 = e2 Y;
            PsubQ1 = e0 P - e0 Q; PsubQ2 = e1 P - e1 Q; PsubQ3 = e2 P - e2 Q;
            XdotQsubP = - X1 * PsubQ1 - X2 * PsubQ2 - X3 * PsubQ3;
            YdotPsubQ = Y1 * PsubQ1 + Y2 * PsubQ2 + Y3 * PsubQ3;
            XdotX = X1 * X1 + X2 * X2 + X3 * X3;
            YdotY = Y1 * Y1 + Y2 * Y2 + Y3 * Y3;
            XdotY = X1 * Y1 + X2 * Y2 + X3 * Y3;
            k = (XdotQsubP * YdotY / XdotX + XdotY * YdotPsubQ) / (YdotY - XdotY * XdotY) in
        Some (Vec (e0 P + k * X1) (e1 P + k * X2) (e2 P + k * X3)))"

section \<open>Segment\<close>

record segment =
  seg_line :: line
  seg_start :: vec
  seg_end :: vec

text \<open>The constructor builds the underlying Line first, so its error is the Segment's.\<close>

definition Segment_new :: "vec \<Rightarrow> vec \<Rightarrow> error + segment" where
  "Segment_new startPoint endPoint =
     (case Line_new startPoint (subtract endPoint startPoint) of
        Inl err \<Rightarrow> Inl err
      | Inr l \<Rightarrow> Inr \<lparr> seg_line = l, seg_start = startPoint, seg_end = endPoint \<rparr>)"

definition Segment_length :: "segment \<Rightarrow> real" where
  "Segment_length s =
     (let A = seg_start s; B = seg_end s;
          C1 = e0 B - e0 A; C2 = e1 B - e1 A; C3 = e2 B - e2 A in
      sqrt (C1 * C1 + C2 * C2 + C3 * C3))"

definition Segment_toVector :: "segment \<Rightarrow> vec" where
  "Segment_toVector s =
     (let A = seg_start s; B = seg_end s in Vec (e0 B - e0 A) (e1 B - e1 A) (e2 B - e2 A))"

text \<open>
  \<^verbatim>\<open>contains\<close> with a point operand. It takes no epsilon: \<^verbatim>\<open>eql\<close> and
  \<^verbatim>\<open>isAntiparallelTo\<close> run at the global precision.
\<close>

definition Segment_contains :: "real \<Rightarrow> segment \<Rightarrow> vec \<Rightarrow> bool" where
  "Segment_contains prec s P =
     (if eql prec (seg_start s) P then True
      else
        let S = seg_start s;
            V = Vec (e0 S - e0 P) (e1 S - e1 P) (e2 S - e2 P);
            vect = Segment_toVector s in
        truthy (isAntiparallelTo prec V vect) \<and> modulus V \<le> modulus vect)"

section \<open>Plane\<close>

record plane =
  plane_anchor :: vec
  plane_normal :: vec

text \<open>
  Modelled from the spec: the module \<^verbatim>\<open>plane.js\<close> is missing; the spec describes a
  plane as an anchor point with a unit normal, and its \<^verbatim>\<open>contains(point, epsilon)\<close> as
  point-and-normal membership within epsilon. \<^verbatim>\<open>Plane.fromPoints\<close> is not modelled:
  the functions that call it take it as the argument \<open>fromPoints\<close>, and a polygon is
  always constructed with its plane given.
\<close>

definition Plane_new :: "vec \<Rightarrow> vec \<Rightarrow> plane" where
  "Plane_new anchor normal = \<lparr> plane_anchor = anchor, plane_normal = toUnitVector normal \<rparr>"

definition Plane_contains :: "plane \<Rightarrow> vec \<Rightarrow> real \<Rightarrow> bool" where
  "Plane_contains pl P epsilon \<longleftrightarrow>
     \<bar>dot (plane_normal pl) (subtract P (plane_anchor pl))\<bar> \<le> epsilon"

section \<open>The vertex ring\<close>

text \<open>
  Modelled from the spec: the module \<^verbatim>\<open>linkedlist.js\<close> is missing. The spec describes
  a circular list of nodes in a fixed order, \<^verbatim>\<open>at(i)\<close> reading modulo the length,
  \<^verbatim>\<open>findNode(value, predicate)\<close> returning the first node whose data satisfies
  \<^verbatim>\<open>predicate(data, value)\<close> or a not-found sentinel, \<^verbatim>\<open>map\<close> and \<^verbatim>\<open>filter\<close> keeping the
  order, \<^verbatim>\<open>forEach\<close> and \<^verbatim>\<open>some\<close> visiting the nodes from the first one. The ring is
  the list of its data in that order and a node is its index; \<^verbatim>\<open>map\<close> and \<^verbatim>\<open>filter\<close> are
  those of lists. Vertices that the source compares by reference (\<^verbatim>\<open>!==\<close>) are compared
  by their coordinates: the two agree on a ring whose vertices have pairwise different
  coordinates.
\<close>

definition ring_at :: "'a list \<Rightarrow> nat \<Rightarrow> 'a option" where
  "ring_at xs i = (if xs = [] then None else Some (xs ! (i mod length xs)))"

fun findNode :: "'a list \<Rightarrow> 'b \<Rightarrow> ('a \<Rightarrow> 'b \<Rightarrow> bool) \<Rightarrow> nat option" where
  "findNode [] v p = None"
| "findNode (x # xs) v p = (if p x v then Some 0 else map_option Suc (findNode xs v p))"

definition node_next :: "'a list \<Rightarrow> nat \<Rightarrow> 'a" where
  "node_next xs i = xs ! (Suc i mod length xs)"

definition node_prev :: "'a list \<Rightarrow> nat \<Rightarrow> 'a" where
  "node_prev xs i = xs ! ((i + length xs - 1) mod length xs)"

text \<open>The pairs \<^verbatim>\<open>(node.data, node.next.data)\<close> in ring order.\<close>

definition edges :: "'a list \<Rightarrow> ('a \<times> 'a) list" where
  "edges xs = zip xs (rotate1 xs)"

section \<open>Polygon and Vertex\<close>

record polygon =
  plane :: plane
  vertices :: "vec list"
  convexVertices :: "vec list"
  reflexVertices :: "vec list"

definition vertexCompare :: "real \<Rightarrow> vec \<Rightarrow> vec \<Rightarrow> bool" where
  "vertexCompare prec a b = eql prec a b"

definition nodeFor :: "real \<Rightarrow> polygon \<Rightarrow> vec \<Rightarrow> nat option" where
  "nodeFor prec poly vertex = findNode (vertices poly) vertex (vertexCompare prec)"

text \<open>
  \<^verbatim>\<open>Vertex.isConvex\<close>: \<open>this\<close> is the vertex. A null angle counts as 0 in the two
  comparisons.
\<close>

definition Vertex_isConvex :: "real \<Rightarrow> vec \<Rightarrow> polygon \<Rightarrow> error + bool" where
  "Vertex_isConvex prec this poly =
     (case nodeFor prec poly this of
        None \<Rightarrow> Inl InvalidOperationError
      | Some node \<Rightarrow>
          let prev = node_prev (vertices poly) node;
              next = node_next (vertices poly) node;
              A = subtract next this;
              B = subtract prev this;
              theta = num (angleFrom A B) in
          if theta \<le> prec then Inr True
          else if \<bar>theta - pi\<bar> \<le> prec then Inr False
          else Inr (dot (cross A B) (plane_normal (plane poly)) > 0))"

definition Vertex_isReflex :: "real \<Rightarrow> vec \<Rightarrow> polygon \<Rightarrow> error + bool" where
  "Vertex_isReflex prec this poly =
     (case Vertex_isConvex prec this poly of
        Inl err \<Rightarrow> Inl err
      | Inr result \<Rightarrow> Inr (\<not> result))"

text \<open>
  \<^verbatim>\<open>populateVertexTypeLists\<close> walks the main ring and appends each vertex to the convex
  or to the reflex ring of the polygon under construction; an error of \<^verbatim>\<open>isConvex\<close>
  leaves the constructor.
\<close>

fun populateVertexTypeLists :: "real \<Rightarrow> polygon \<Rightarrow> vec list \<Rightarrow> error + polygon" where
  "populateVertexTypeLists prec poly [] = Inr poly"
| "populateVertexTypeLists prec poly (v # vs) =
     (case Vertex_isConvex prec v poly of
        Inl err \<Rightarrow> Inl err
      | Inr True \<Rightarrow>
          populateVertexTypeLists prec (poly\<lparr> convexVertices := convexVertices poly @ [v] \<rparr>) vs
      | Inr False \<Rightarrow>
          populateVertexTypeLists prec (poly\<lparr> reflexVertices := reflexVertices poly @ [v] \<rparr>) vs)"

definition Polygon_new :: "real \<Rightarrow> vec list \<Rightarrow> plane \<Rightarrow> error + polygon" where
  "Polygon_new prec points pl =
     populateVertexTypeLists prec
       \<lparr> plane = pl, vertices = points, convexVertices = [], reflexVertices = [] \<rparr> points"

definition isTriangle :: "polygon \<Rightarrow> bool" where
  "isTriangle poly \<longleftrightarrow> length (vertices poly) = 3"

text \<open>
  \<^verbatim>\<open>scale\<close>: \<^verbatim>\<open>this.vertices.first.data\<close> is read on the receiver, whose vertices the
  mapping does not touch; on an empty ring the read of \<^verbatim>\<open>first.data\<close> fails.
\<close>

definition Polygon_scale :: "real \<Rightarrow> polygon \<Rightarrow> real \<Rightarrow> vec \<Rightarrow> error + polygon" where
  "Polygon_scale prec poly k point =
     (case vertices poly of
        [] \<Rightarrow> Inl TypeError
      | first # _ \<Rightarrow>
          Polygon_new prec
            (map (\<lambda>node. Vec (e0 point + k * (e0 node - e0 point))
                            (e1 point + k * (e1 node - e1 point))
                            (e2 point + k * (e2 node - e2 point)))
                 (vertices poly))
            (Plane_new first (plane_normal (plane poly))))"

text \<open>The test of \<^verbatim>\<open>trianglesForSurfaceIntegral\<close> that the source calls \<^verbatim>\<open>colinear\<close>.\<close>

definition colinear :: "real \<Rightarrow> vec \<Rightarrow> vec \<Rightarrow> vec \<Rightarrow> bool" where
  "colinear prec a b c \<longleftrightarrow>
     (e1 a - e1 b) * (e0 a - e0 c) - (e1 c - e1 a) * (e0 a - e0 b) < prec"

text \<open>
  The body of the \<^verbatim>\<open>forEach\<close> of \<^verbatim>\<open>trianglesForSurfaceIntegral\<close>, from index 2 on:
  the list argument starts at \<^verbatim>\<open>node.prev.data\<close>.
\<close>

fun surfaceIntegralElements ::
  "real \<Rightarrow> (vec \<Rightarrow> vec \<Rightarrow> vec \<Rightarrow> plane) \<Rightarrow> plane \<Rightarrow> vec \<Rightarrow> vec list \<Rightarrow> error + polygon list"
where
  "surfaceIntegralElements prec fromPoints pl a (b # c # rest) =
     (case Polygon_new prec [a, b, c] (if colinear prec a b c then pl else fromPoints a b c) of
        Inl err \<Rightarrow> Inl err
      | Inr t \<Rightarrow>
          (case surfaceIntegralElements prec fromPoints pl a (c # rest) of
             Inl err \<Rightarrow> Inl err
           | Inr ts \<Rightarrow> Inr (t # ts)))"
| "surfaceIntegralElements prec fromPoints pl a rest = Inr []"

definition trianglesForSurfaceIntegral ::
  "real \<Rightarrow> (vec \<Rightarrow> vec \<Rightarrow> vec \<Rightarrow> plane) \<Rightarrow> polygon \<Rightarrow> error + polygon list"
where
  "trianglesForSurfaceIntegral prec fromPoints poly =
     (case vertices poly of
        [] \<Rightarrow> Inl TypeError
      | firstVertex # rest \<Rightarrow> surfaceIntegralElements prec fromPoints (plane poly) firstVertex rest)"

text \<open>The first branch of \<^verbatim>\<open>area\<close>, taken by a polygon of three vertices.\<close>

definition triangle_area :: "polygon \<Rightarrow> real" where
  "triangle_area poly =
     (let A = vertices poly ! 0; B = vertices poly ! 1; C = vertices poly ! 2 in
      0.5 * modulus
        (Vec ((e1 A - e1 B) * (e2 C - e2 B) - (e2 A - e2 B) * (e1 C - e1 B))
             ((e2 A - e2 B) * (e0 C - e0 B) - (e0 A - e0 B) * (e2 C - e2 B))
             ((e0 A - e0 B) * (e1 C - e1 B) - (e1 A - e1 B) * (e0 C - e0 B))))"

text \<open>
  \<^verbatim>\<open>area\<close>. Every element of the fan has three vertices, so the inner call
  \<^verbatim>\<open>trigs[i].area()\<close> is the first branch.
\<close>

definition Polygon_area ::
  "real \<Rightarrow> (vec \<Rightarrow> vec \<Rightarrow> vec \<Rightarrow> plane) \<Rightarrow> polygon \<Rightarrow> error + real"
where
  "Polygon_area prec fromPoints poly =
     (if isTriangle poly then Inr (triangle_area poly)
      else
        (case trianglesForSurfaceIntegral prec fromPoints poly of
           Inl err \<Rightarrow> Inl err
         | Inr trigs \<Rightarrow>
             Inr (fold (\<lambda>t area. area + triangle_area t *
                                   dot (plane_normal (plane t)) (plane_normal (plane poly)))
                       trigs 0)))"

definition removeVertex :: "real \<Rightarrow> polygon \<Rightarrow> vec \<Rightarrow> error + polygon" where
  "removeVertex prec poly vertex =
     (if isTriangle poly then Inr poly
      else Polygon_new prec (filter (\<lambda>n. \<not> eql prec vertex n) (vertices poly)) (plane poly))"

text \<open>
  \<^verbatim>\<open>hasEdgeContaining(point)\<close>: \<^verbatim>\<open>some\<close> stops at the first edge that contains the
  point; the Segment of every edge visited is constructed, and its error leaves the
  method.
\<close>

fun some_edge :: "real \<Rightarrow> vec \<Rightarrow> (vec \<times> vec) list \<Rightarrow> error + bool" where
  "some_edge prec P [] = Inr False"
| "some_edge prec P ((v, w) # es) =
     (case Segment_new v w of
        Inl err \<Rightarrow> Inl err
      | Inr s \<Rightarrow> if Segment_contains prec s P then Inr True else some_edge prec P es)"

definition hasEdgeContaining :: "real \<Rightarrow> polygon \<Rightarrow> vec \<Rightarrow> error + bool" where
  "hasEdgeContaining prec poly point = some_edge prec point (edges (vertices poly))"

text \<open>
  The call \<^verbatim>\<open>this.hasEdgeContaining(P, epsilon)\<close> in \<^verbatim>\<open>containsByWindingNumber\<close>: the
  method declares one parameter, so the second argument is dropped.
\<close>

definition edge_rejection :: "real \<Rightarrow> polygon \<Rightarrow> vec \<Rightarrow> real \<Rightarrow> error + bool" where
  "edge_rejection prec poly P epsilon = hasEdgeContaining prec poly P"

text \<open>One round of the \<^verbatim>\<open>forEach\<close> of \<^verbatim>\<open>containsByWindingNumber\<close> on \<open>(theta, loops)\<close>.\<close>

definition winding_step ::
  "real \<Rightarrow> plane \<Rightarrow> vec \<Rightarrow> real \<Rightarrow> vec \<times> vec \<Rightarrow> real \<times> int \<Rightarrow> real \<times> int"
where
  "winding_step prec pl P epsilon e st =
     (case e of (V, W) \<Rightarrow>
      case st of (theta, loops) \<Rightarrow>
        let A = Vec (e0 V - e0 P) (e1 V - e1 P) (e2 V - e2 P);
            B = Vec (e0 W - e0 P) (e1 W - e1 P) (e2 W - e2 P) in
        (case angleFrom A B of
           None \<Rightarrow> (theta, loops)
         | Some dt \<Rightarrow>
             if dt = 0 then (theta, loops)
             else
               let theta1 = theta +
                     (if truthy (isParallelTo prec (cross A B) (plane_normal pl)) then 1 else - 1) * dt;
                   st1 = (if theta1 \<ge> 2 * pi - epsilon then (theta1 - 2 * pi, loops + 1)
                          else (theta1, loops));
                   st2 = (if fst st1 \<le> - 2 * pi + epsilon then (fst st1 + 2 * pi, snd st1 - 1)
                          else st1)
               in st2))"

definition containsByWindingNumber :: "real \<Rightarrow> polygon \<Rightarrow> vec \<Rightarrow> real \<Rightarrow> error + bool" where
  "containsByWindingNumber prec poly P epsilon =
     (if \<not> Plane_contains (plane poly) P epsilon then Inr False
      else
        (case edge_rejection prec poly P epsilon of
           Inl err \<Rightarrow> Inl err
         | Inr True \<Rightarrow> Inr False
         | Inr False \<Rightarrow>
             Inr (snd (fold (winding_step prec (plane poly) P epsilon)
                            (edges (vertices poly)) (0, 0)) \<noteq> 0)))"

definition Polygon_contains :: "real \<Rightarrow> polygon \<Rightarrow> vec \<Rightarrow> real \<Rightarrow> error + bool" where
  "Polygon_contains prec poly point epsilon = containsByWindingNumber prec poly point epsilon"

text \<open>
  The \<^verbatim>\<open>some\<close> over the reflex ring in \<^verbatim>\<open>triangulateByEarClipping\<close>; a callback that
  returns nothing counts as false. \<^verbatim>\<open>||\<close> calls \<^verbatim>\<open>hasEdgeContaining\<close> only when
  \<^verbatim>\<open>contains\<close> is false.
\<close>

fun some_reflex :: "real \<Rightarrow> polygon \<Rightarrow> vec \<Rightarrow> vec \<Rightarrow> vec list \<Rightarrow> error + bool" where
  "some_reflex prec trig prev next [] = Inr False"
| "some_reflex prec trig prev next (node # rest) =
     (if node \<noteq> prev \<and> node \<noteq> next then
        (case Polygon_contains prec trig node prec of
           Inl err \<Rightarrow> Inl err
         | Inr True \<Rightarrow> Inr True
         | Inr False \<Rightarrow>
             (case hasEdgeContaining prec trig node of
                Inl err \<Rightarrow> Inl err
              | Inr True \<Rightarrow> Inr True
              | Inr False \<Rightarrow> some_reflex prec trig prev next rest))
      else some_reflex prec trig prev next rest)"

text \<open>
  The inner \<^verbatim>\<open>for\<close> loop over the candidate ear tips, for the values of \<open>i\<close> listed in
  the last argument; it stops at the first success and returns the triangle and the
  vertex of the main node, or nothing when no candidate succeeded. Reading \<^verbatim>\<open>.data\<close>
  of a node that was not found fails.
\<close>

fun ear_scan ::
  "real \<Rightarrow> plane \<Rightarrow> polygon \<Rightarrow> nat \<Rightarrow> nat list \<Rightarrow> error + (polygon \<times> vec) option"
where
  "ear_scan prec pl poly offset [] = Inr None"
| "ear_scan prec pl poly offset (i # rest) =
     (case ring_at (convexVertices poly) (offset + i) of
        None \<Rightarrow> Inl TypeError
      | Some convexNode \<Rightarrow>
          (case findNode (vertices poly) convexNode (vertexCompare prec) of
             None \<Rightarrow> Inl TypeError
           | Some mainNode \<Rightarrow>
               let d = vertices poly ! mainNode;
                   nx = node_next (vertices poly) mainNode;
                   pv = node_prev (vertices poly) mainNode in
               (case Polygon_new prec [d, nx, pv] pl of
                  Inl err \<Rightarrow> Inl err
                | Inr trig \<Rightarrow>
                    (case some_reflex prec trig pv nx (reflexVertices poly) of
                       Inl err \<Rightarrow> Inl err
                     | Inr True \<Rightarrow> ear_scan prec pl poly offset rest
                     | Inr False \<Rightarrow> Inr (Some (trig, d))))))"

text \<open>
  What the outer loop of \<^verbatim>\<open>triangulateByEarClipping\<close> relies on to come to an end: a
  polygon that was constructed has the vertices and the plane it was given, and an
  accepted ear tip is a vertex of the polygon, which \<^verbatim>\<open>removeVertex\<close> then filters out.
\<close>

lemma populate_keeps:
  "populateVertexTypeLists prec poly vs = Inr p \<Longrightarrow>
     vertices p = vertices poly \<and> plane p = plane poly"
proof (induction vs arbitrary: poly)
  case Nil
  then show ?case by simp
next
  case (Cons v vs)
  show ?case
  proof (cases "Vertex_isConvex prec v poly")
    case (Inl e)
    with Cons.prems show ?thesis by simp
  next
    case (Inr b)
    with Cons.prems Cons.IH [of "poly\<lparr> convexVertices := convexVertices poly @ [v] \<rparr>"]
      Cons.IH [of "poly\<lparr> reflexVertices := reflexVertices poly @ [v] \<rparr>"]
    show ?thesis by (cases b) auto
  qed
qed

lemma Polygon_new_keeps:
  "Polygon_new prec points pl = Inr p \<Longrightarrow> vertices p = points \<and> plane p = pl"
  using populate_keeps [of prec _ points p] by (auto simp: Polygon_new_def)

lemma findNode_Some:
  "findNode xs v p = Some i \<Longrightarrow> i < length xs \<and> p (xs ! i) v \<and> (\<forall>j<i. \<not> p (xs ! j) v)"
proof (induction xs arbitrary: i)
  case Nil
  then show ?case by simp
next
  case (Cons x xs)
  show ?case
  proof (cases "p x v")
    case True
    with Cons.prems show ?thesis by simp
  next
    case False
    with Cons.prems obtain j where j: "findNode xs v p = Some j" "i = Suc j"
      by auto
    from Cons.IH [OF j(1)] False j(2) show ?thesis
      by (auto simp: less_Suc_eq_0_disj)
  qed
qed

lemma findNode_None: "findNode xs v p = None \<longleftrightarrow> (\<forall>x\<in>set xs. \<not> p x v)"
  by (induction xs) auto

lemma eql_refl_iff: "eql prec a a \<longleftrightarrow> 0 \<le> prec"
  by (simp add: eql_def)

lemma eql_nonneg: "eql prec a b \<Longrightarrow> 0 \<le> prec"
  by (auto simp: eql_def)

lemma ear_scan_Some:
  "ear_scan prec pl poly offset ixs = Inr (Some (trig, d)) \<Longrightarrow>
     d \<in> set (vertices poly) \<and> 0 \<le> prec \<and> length (vertices trig) = 3"
proof (induction ixs)
  case Nil
  then show ?case by simp
next
  case (Cons i rest)
  from Cons.prems obtain c where c: "ring_at (convexVertices poly) (offset + i) = Some c"
    by (auto split: option.splits)
  from Cons.prems c obtain m where m: "findNode (vertices poly) c (vertexCompare prec) = Some m"
    by (auto split: option.splits)
  let ?d = "vertices poly ! m"
  let ?nx = "node_next (vertices poly) m"
  let ?pv = "node_prev (vertices poly) m"
  from Cons.prems c m obtain t where t: "Polygon_new prec [?d, ?nx, ?pv] pl = Inr t"
    by (auto simp: Let_def split: sum.splits)
  from Cons.prems c m t obtain b where b: "some_reflex prec t ?pv ?nx (reflexVertices poly) = Inr b"
    by (auto simp: Let_def split: sum.splits)
  show ?case
  proof (cases b)
    case True
    with Cons.prems c m t b have "ear_scan prec pl poly offset rest = Inr (Some (trig, d))"
      by (simp add: Let_def)
    with Cons.IH show ?thesis by simp
  next
    case False
    with Cons.prems c m t b have eq: "trig = t" "d = ?d"
      by (simp_all add: Let_def)
    from findNode_Some [OF m] have "m < length (vertices poly)" "eql prec ?d c"
      by (simp_all add: vertexCompare_def)
    with eq Polygon_new_keeps [OF t] show ?thesis
      by (auto dest: eql_nonneg)
  qed
qed

lemma removeVertex_shrinks:
  assumes "removeVertex prec poly d = Inr poly'" "\<not> isTriangle poly"
    "d \<in> set (vertices poly)" "0 \<le> prec"
  shows "length (vertices poly') < length (vertices poly)"
proof -
  from assms(1,2) have "vertices poly' = filter (\<lambda>n. \<not> eql prec d n) (vertices poly)"
    by (auto simp: removeVertex_def dest: Polygon_new_keeps)
  moreover have "eql prec d d" using assms(4) by (simp add: eql_refl_iff)
  ultimately show ?thesis
    using assms(3) by (auto intro: length_filter_less)
qed

text \<open>
  The \<^verbatim>\<open>while\<close> loop of \<^verbatim>\<open>triangulateByEarClipping\<close>. \<open>random rnd\<close> is the value
  of \<^verbatim>\<open>Math.random()\<close> in round \<open>rnd\<close>, \<open>pl\<close> is \<^verbatim>\<open>this.plane\<close>. The ring shrinks
  in every round that does not raise, so the loop is a total function.
\<close>

function triangulate_loop ::
  "real \<Rightarrow> (nat \<Rightarrow> real) \<Rightarrow> plane \<Rightarrow> nat \<Rightarrow> polygon \<Rightarrow> polygon list \<Rightarrow> error + polygon list"
where
  "triangulate_loop prec random pl rnd poly triangles =
     (if isTriangle poly then Inr (triangles @ [poly])
      else
        let n = length (convexVertices poly);
            offset = nat \<lfloor>random rnd * real n\<rfloor> in
        (case ear_scan prec pl poly offset [0..<n] of
           Inl err \<Rightarrow> Inl err
         | Inr None \<Rightarrow> Inl NoCandidateError
         | Inr (Some (trig, d)) \<Rightarrow>
             (case removeVertex prec poly d of
                Inl err \<Rightarrow> Inl err
              | Inr poly' \<Rightarrow>
                  triangulate_loop prec random pl (Suc rnd) poly' (triangles @ [trig]))))"
  by pat_completeness auto
termination
proof (relation "measure (\<lambda>(prec, random, pl, rnd, poly, triangles). length (vertices poly))")
  show "wf (measure (\<lambda>(prec, random, pl, rnd, poly, triangles). length (vertices poly)))"
    by simp
next
  fix prec :: real and random :: "nat \<Rightarrow> real" and pl rnd poly and triangles :: "polygon list"
    and n offset b x2 x y poly'
  assume "\<not> isTriangle poly" and "n = length (convexVertices poly)"
    and "offset = nat \<lfloor>random rnd * real n\<rfloor>"
    and "ear_scan prec pl poly offset [0..<n] = Inr b" and "b = Some x2" and "(x, y) = x2"
    and "removeVertex prec poly y = Inr poly'"
  then show "((prec, random, pl, Suc rnd, poly', triangles @ [x]), prec, random, pl, rnd, poly, triangles)
       \<in> measure (\<lambda>(prec, random, pl, rnd, poly, triangles). length (vertices poly))"
    using ear_scan_Some [of prec pl poly offset "[0..<n]" x y] removeVertex_shrinks [of prec poly y poly']
    by auto
qed

text \<open>\<^verbatim>\<open>toTriangles\<close> caches the result of \<^verbatim>\<open>triangulateByEarClipping\<close>.\<close>

definition triangulateByEarClipping :: "real \<Rightarrow> (nat \<Rightarrow> real) \<Rightarrow> polygon \<Rightarrow> error + polygon list" where
  "triangulateByEarClipping prec random poly = triangulate_loop prec random (plane poly) 0 poly []"

definition toTriangles :: "real \<Rightarrow> (nat \<Rightarrow> real) \<Rightarrow> polygon \<Rightarrow> error + polygon list" where
  "toTriangles prec random poly = triangulateByEarClipping prec random poly"

text \<open>
  One pass of the body of the \<^verbatim>\<open>for\<close> loop of \<^verbatim>\<open>triangulateByEarClipping\<close>: the ear
  test of the convex vertex \<^verbatim>\<open>convexVertices.at(j)\<close> alone.
\<close>

definition ear_candidate ::
  "real \<Rightarrow> plane \<Rightarrow> polygon \<Rightarrow> nat \<Rightarrow> error + (polygon \<times> vec) option"
where
  "ear_candidate prec pl poly j = ear_scan prec pl poly j [0]"

text \<open>
  The polygons that the \<^verbatim>\<open>while\<close> loop can reach from \<open>P\<close>: a round removes the tip of
  an ear that the test accepts at some convex vertex.
\<close>

inductive clips :: "real \<Rightarrow> plane \<Rightarrow> polygon \<Rightarrow> polygon \<Rightarrow> bool"
  for prec :: real and pl :: plane and P :: polygon
where
  start: "clips prec pl P P"
| clip: "clips prec pl P Q \<Longrightarrow> \<not> isTriangle Q \<Longrightarrow> j < length (convexVertices Q) \<Longrightarrow>
         ear_candidate prec pl Q j = Inr (Some (trig, d)) \<Longrightarrow>
         removeVertex prec Q d = Inr Q' \<Longrightarrow> clips prec pl P Q'"

section \<open>Example polygons\<close>

text \<open>
  The inputs at which the theorems below are evaluated, each with the convex and the
  reflex ring that the constructor computes for it at the precision \<open>1/1000000\<close>.
\<close>

abbreviation (input) xy_plane :: plane where
  "xy_plane \<equiv> \<lparr> plane_anchor = Vec 0 0 0, plane_normal = Vec 0 0 1 \<rparr>"

abbreviation (input) unit_square :: polygon where
  "unit_square \<equiv> \<lparr> plane = xy_plane,
      vertices = [Vec 0 0 0, Vec 1 0 0, Vec 1 1 0, Vec 0 1 0],
      convexVertices = [Vec 0 0 0, Vec 1 0 0, Vec 1 1 0, Vec 0 1 0],
      reflexVertices = [] \<rparr>"

abbreviation (input) repeated_vertex_polygon :: polygon where
  "repeated_vertex_polygon \<equiv> \<lparr> plane = xy_plane,
      vertices = [Vec 0 0 0, Vec 0 0 0, Vec 1 0 0, Vec 0 1 0],
      convexVertices = [Vec 0 0 0, Vec 0 0 0, Vec 1 0 0, Vec 0 1 0],
      reflexVertices = [] \<rparr>"

text \<open>
  A dart of area 4 with its reflex vertex second, counter-clockwise about its normal;
  \<open>triangle a b c convex\<close> is a polygon of three vertices in the same plane, all
  convex or all reflex.
\<close>

abbreviation (input) dart_points :: "vec list" where
  "dart_points \<equiv> [Vec 4 0 0, Vec 1 1 0, Vec 0 4 0, Vec 0 0 0]"

abbreviation (input) dart :: polygon where
  "dart \<equiv> \<lparr> plane = xy_plane, vertices = dart_points,
      convexVertices = [Vec 4 0 0, Vec 0 4 0, Vec 0 0 0],
      reflexVertices = [Vec 1 1 0] \<rparr>"

abbreviation (input) triangle :: "vec \<Rightarrow> vec \<Rightarrow> vec \<Rightarrow> bool \<Rightarrow> polygon" where
  "triangle a b c convex \<equiv> \<lparr> plane = xy_plane, vertices = [a, b, c],
      convexVertices = (if convex then [a, b, c] else []),
      reflexVertices = (if convex then [] else [a, b, c]) \<rparr>"

text \<open>A unit square in the plane \<open>z = 1\<close>.\<close>

abbreviation (input) raised_plane :: plane where
  "raised_plane \<equiv> \<lparr> plane_anchor = Vec 0 0 1, plane_normal = Vec 0 0 1 \<rparr>"

abbreviation (input) raised_square :: polygon where
  "raised_square \<equiv> \<lparr> plane = raised_plane,
      vertices = [Vec 0 0 1, Vec 1 0 1, Vec 1 1 1, Vec 0 1 1],
      convexVertices = [Vec 0 0 1, Vec 1 0 1, Vec 1 1 1, Vec 0 1 1],
      reflexVertices = [] \<rparr>"


text \<open>
  A square of side 4 with a fifth vertex pushed in from its left edge to within the
  precision of the first vertex: a simple ring, counter-clockwise about its normal, whose
  corner at the fifth vertex is reflex.
\<close>

abbreviation (input) near_point :: vec where
  "near_point \<equiv> Vec (1 / 2000000) (1 / 2000000) 0"

abbreviation (input) near_ring :: polygon where
  "near_ring \<equiv> \<lparr> plane = xy_plane,
      vertices = [Vec 0 0 0, Vec 4 0 0, Vec 4 4 0, Vec 0 4 0, near_point],
      convexVertices = [Vec 0 0 0, Vec 4 0 0, Vec 4 4 0, Vec 0 4 0, near_point],
      reflexVertices = [] \<rparr>"



section \<open>Facts about vectors\<close>

lemma dot_self_nonneg: "0 \<le> dot a a"
  by (simp add: dot_def)

lemma dot_self_zero_iff: "dot a a = 0 \<longleftrightarrow> a = Vec 0 0 0"
proof (cases a)
  case (Vec x y z)
  have "x * x + y * y + z * z = 0 \<longleftrightarrow> x = 0 \<and> y = 0 \<and> z = 0"
  proof
    assume h: "x * x + y * y + z * z = 0"
    have "0 \<le> x * x" "0 \<le> y * y" "0 \<le> z * z" by simp_all
    with h have "x * x = 0" "y * y = 0" "z * z = 0" by linarith+
    then show "x = 0 \<and> y = 0 \<and> z = 0" by simp
  qed simp
  with Vec show ?thesis by (simp add: dot_def)
qed

lemma modulus_zero_iff: "modulus a = 0 \<longleftrightarrow> a = Vec 0 0 0"
  by (simp add: modulus_def dot_self_zero_iff)

lemma modulus_nonneg: "0 \<le> modulus a"
  by (simp add: modulus_def dot_self_nonneg)

lemma subtract_zero_iff: "subtract b a = Vec 0 0 0 \<longleftrightarrow> a = b"
  by (cases a; cases b) (auto simp: subtract_def)

lemma Line_new_error_iff:
  "Line_new a d = Inl err \<longleftrightarrow> d = Vec 0 0 0 \<and> err = DimensionalityMismatchError"
  by (auto simp: Line_new_def Let_def modulus_zero_iff)

lemma Segment_new_error_iff:
  "Segment_new s e = Inl err \<longleftrightarrow> s = e \<and> err = DimensionalityMismatchError"
proof (cases "s = e")
  case True
  then have "Line_new s (subtract e s) = Inl DimensionalityMismatchError"
    by (simp add: Line_new_error_iff subtract_zero_iff)
  with True show ?thesis
    by (auto simp: Segment_new_def)
next
  case False
  then have "\<And>x. Line_new s (subtract e s) \<noteq> Inl x"
    by (simp add: Line_new_error_iff subtract_zero_iff)
  then obtain l where "Line_new s (subtract e s) = Inr l"
    by (cases "Line_new s (subtract e s)") auto
  with False show ?thesis
    by (simp add: Segment_new_def)
qed

lemma lagrange: "dot (cross u w) (cross u w) = dot u u * dot w w - (dot u w)\<^sup>2"
  by (cases u; cases w) (simp add: dot_def cross_def power2_eq_square algebra_simps)

lemma Line_new_unit:
  assumes "Line_new a d = Inr L"
  shows "dot (line_direction L) (line_direction L) = 1" and "line_anchor L = a"
proof -
  from assms have nz: "modulus d \<noteq> 0"
    and L: "L = \<lparr> line_anchor = a,
                 line_direction = Vec (e0 d / modulus d) (e1 d / modulus d) (e2 d / modulus d) \<rparr>"
    by (auto simp: Line_new_def Let_def split: if_splits)
  have sq: "modulus d * modulus d = dot d d"
    by (simp add: modulus_def dot_self_nonneg)
  have "dot (line_direction L) (line_direction L) = dot d d / (modulus d * modulus d)"
    by (simp add: L dot_def add_divide_distrib)
  moreover from nz have "dot d d \<noteq> 0" by (simp add: modulus_def)
  ultimately show "dot (line_direction L) (line_direction L) = 1" using sq by simp
  show "line_anchor L = a" by (simp add: L)
qed

lemma unit_parallel_angle:
  assumes u: "dot u u = 1" and w: "dot w w = 1" and c: "cross u w = Vec 0 0 0"
  shows "angleFrom u w = Some 0 \<or> angleFrom u w = Some pi"
proof -
  have "dot (cross u w) (cross u w) = 0" by (simp add: c dot_def)
  with lagrange [of u w] u w have "(dot u w)\<^sup>2 = 1" by simp
  then have d: "dot u w = 1 \<or> dot u w = -1"
    by (simp add: power2_eq_1_iff)
  have m: "modulus u = 1" "modulus w = 1" by (simp_all add: modulus_def u w)
  from d show ?thesis
    by (auto simp: angleFrom_def m)
qed

lemma exact_parallel_isParallelTo:
  assumes "0 \<le> prec" "dot (line_direction L) (line_direction L) = 1"
    "dot (line_direction M) (line_direction M) = 1"
    "cross (line_direction L) (line_direction M) = Vec 0 0 0"
  shows "Line_isParallelTo L M prec"
  using unit_parallel_angle [OF assms(2,3,4)] assms(1)
  by (auto simp: Line_isParallelTo_def num_def)

section \<open>Angles and the evaluation of the convexity test\<close>

lemma cauchy_schwarz: "\<bar>dot a b\<bar> \<le> modulus a * modulus b"
proof -
  have "0 \<le> dot (cross a b) (cross a b)" by (rule dot_self_nonneg)
  with lagrange [of a b] have "(dot a b)\<^sup>2 \<le> dot a a * dot b b" by simp
  also have "\<dots> = (modulus a * modulus b)\<^sup>2"
    by (simp add: modulus_def power_mult_distrib dot_self_nonneg)
  finally have "\<bar>dot a b\<bar> \<le> \<bar>modulus a * modulus b\<bar>"
    by (simp add: abs_le_square_iff)
  then show ?thesis
    by (simp add: modulus_nonneg abs_mult)
qed

lemma angleFrom_range:
  assumes "angleFrom a b = Some theta"
  shows "0 \<le> theta \<and> theta \<le> pi"
proof -
  let ?m = "modulus a * modulus b"
  from assms have nz: "?m \<noteq> 0" and th: "theta = arccos (dot a b / ?m)"
    by (auto simp: angleFrom_def split: if_splits)
  have pos: "0 < ?m"
    using nz modulus_nonneg [of a] modulus_nonneg [of b]
    by (metis less_eq_real_def mult_nonneg_nonneg)
  from cauchy_schwarz [of a b] pos have "\<bar>dot a b\<bar> / ?m \<le> 1"
    by (simp only: divide_le_eq_1_pos)
  with pos have "\<bar>dot a b / ?m\<bar> \<le> 1"
    by (simp only: abs_divide abs_of_pos)
  then have "- 1 \<le> dot a b / ?m" "dot a b / ?m \<le> 1" by linarith+
  with th show ?thesis
    by (simp add: arccos_lbound arccos_ubound)
qed

text \<open>
  A corner whose edge vectors are neither parallel nor antiparallel by a wide margin
  (the square of the cosine below 0.99) passes both angle tests of \<^verbatim>\<open>isConvex\<close> at
  every precision up to 0.1, so that the sign of the cross product decides.
\<close>

lemma cos_lower: "1 - t\<^sup>2 / 2 \<le> cos (t::real)"
proof -
  have "\<bar>sin (t / 2)\<bar> \<le> \<bar>t / 2\<bar>" by (rule abs_sin_x_le_abs_x)
  then have "(sin (t / 2))\<^sup>2 \<le> (t / 2)\<^sup>2" by (simp only: abs_le_square_iff)
  moreover have "cos t = 1 - 2 * (sin (t / 2))\<^sup>2"
    using cos_double_sin [of "t / 2"] by simp
  ultimately show ?thesis by (simp add: power2_eq_square)
qed

lemma arccos_margin:
  assumes "0 \<le> t" "t \<le> 1 / 10" "c\<^sup>2 < 99 / 100"
  shows "t < arccos c" and "t < pi - arccos c"
proof -
  have "\<bar>c\<bar>\<^sup>2 < (995 / 1000)\<^sup>2" using assms(3) by (simp add: power2_eq_square)
  then have c: "\<bar>c\<bar> < 995 / 1000" by (rule power2_less_imp_less) simp
  have "t\<^sup>2 \<le> (1 / 10)\<^sup>2" using assms(1,2) by (intro power_mono) 
  then have "995 / 1000 \<le> 1 - t\<^sup>2 / 2" by (simp add: power2_eq_square)
  with cos_lower [of t] have ct: "995 / 1000 \<le> cos t" by linarith
  have tpi: "t \<le> pi" using assms(2) pi_ge_two by linarith
  from c have c1: "- 1 \<le> c" "- 1 \<le> - c" by linarith+
  from c ct have c2: "c < cos t" "- c < cos t" by linarith+
  have "arccos (cos t) < arccos c"
    using c1(1) c2(1) cos_le_one by (rule arccos_less_arccos)
  then show "t < arccos c" using assms(1) tpi by (simp add: arccos_cos)
  have "arccos (cos t) < arccos (- c)"
    using c1(2) c2(2) cos_le_one by (rule arccos_less_arccos)
  moreover have "arccos (- c) = pi - arccos c"
    by (rule arccos_minus) (use c in linarith)+
  ultimately show "t < pi - arccos c" using assms(1) tpi by (simp add: arccos_cos)
qed

lemma angleFrom_margin:
  assumes "0 \<le> t" "t \<le> 1 / 10" "100 * (dot a b)\<^sup>2 < 99 * (dot a a * dot b b)"
  shows "t < num (angleFrom a b) \<and> t < pi - num (angleFrom a b)"
proof -
  let ?m = "modulus a * modulus b"
  have sq: "?m\<^sup>2 = dot a a * dot b b"
    by (simp add: modulus_def power_mult_distrib dot_self_nonneg)
  have "0 \<le> 100 * (dot a b)\<^sup>2" by simp
  with assms(3) have pos: "0 < dot a a * dot b b" by linarith
  with sq have nz: "?m \<noteq> 0" by auto
  have "(dot a b / ?m)\<^sup>2 = (dot a b)\<^sup>2 / (dot a a * dot b b)"
    by (simp add: power_divide sq)
  also have "\<dots> < 99 / 100"
    using assms(3) pos by (simp add: divide_less_eq)
  finally have "(dot a b / ?m)\<^sup>2 < 99 / 100" .
  from arccos_margin [OF assms(1,2) this] nz show ?thesis
    by (simp add: angleFrom_def num_def)
qed

lemma isConvex_decide:
  assumes "0 \<le> prec" "prec \<le> 1 / 10"
    and "nodeFor prec P v = Some node"
    and "A = subtract (node_next (vertices P) node) v"
    and "B = subtract (node_prev (vertices P) node) v"
    and "100 * (dot A B)\<^sup>2 < 99 * (dot A A * dot B B)"
  shows "Vertex_isConvex prec v P = Inr (dot (cross A B) (plane_normal (plane P)) > 0)"
proof -
  from angleFrom_margin [OF assms(1,2,6)]
  have "prec < num (angleFrom A B)" "prec < pi - num (angleFrom A B)" by simp_all
  then have "\<not> num (angleFrom A B) \<le> prec" "\<not> \<bar>num (angleFrom A B) - pi\<bar> \<le> prec"
    by linarith+
  with assms(3,4,5) show ?thesis
    by (simp add: Vertex_isConvex_def Let_def)
qed

lemma isConvex_cong:
  "vertices p = vertices q \<Longrightarrow> plane p = plane q \<Longrightarrow>
     Vertex_isConvex prec v p = Vertex_isConvex prec v q"
  by (simp add: Vertex_isConvex_def nodeFor_def Let_def split: option.splits)

lemma populate_eval:
  assumes "\<forall>v\<in>set vs. Vertex_isConvex prec v poly = Inr (cls v)"
  shows "populateVertexTypeLists prec poly vs =
    Inr (poly\<lparr> convexVertices := convexVertices poly @ filter cls vs,
                reflexVertices := reflexVertices poly @ filter (\<lambda>v. \<not> cls v) vs \<rparr>)"
  using assms
proof (induction vs arbitrary: poly)
  case Nil
  then show ?case by simp
next
  case (Cons v vs)
  let ?pc = "poly\<lparr> convexVertices := convexVertices poly @ [v] \<rparr>"
  let ?pr = "poly\<lparr> reflexVertices := reflexVertices poly @ [v] \<rparr>"
  have c: "\<forall>u\<in>set vs. Vertex_isConvex prec u ?pc = Inr (cls u)"
    using Cons.prems isConvex_cong [of ?pc poly] by simp
  have r: "\<forall>u\<in>set vs. Vertex_isConvex prec u ?pr = Inr (cls u)"
    using Cons.prems isConvex_cong [of ?pr poly] by simp
  from Cons.prems have v: "Vertex_isConvex prec v poly = Inr (cls v)" by simp
  show ?case
  proof (cases "cls v")
    case True
    with v Cons.IH [OF c] show ?thesis by simp
  next
    case False
    with v Cons.IH [OF r] show ?thesis by simp
  qed
qed

lemma Polygon_new_eval:
  assumes "\<forall>v\<in>set pts.
     Vertex_isConvex prec v \<lparr> plane = pl, vertices = pts, convexVertices = [], reflexVertices = [] \<rparr>
       = Inr (cls v)"
  shows "Polygon_new prec pts pl =
    Inr \<lparr> plane = pl, vertices = pts, convexVertices = filter cls pts,
          reflexVertices = filter (\<lambda>v. \<not> cls v) pts \<rparr>"
  using populate_eval [OF assms] by (simp add: Polygon_new_def)

section \<open>Points on an edge\<close>

lemma Segment_new_ok:
  "Segment_new V W = Inr s \<Longrightarrow> V \<noteq> W \<and> seg_start s = V \<and> seg_end s = W"
  using Segment_new_error_iff [of V W DimensionalityMismatchError]
  by (auto simp: Segment_new_def split: sum.splits)

lemma Segment_new_total: "V \<noteq> W \<Longrightarrow> \<exists>s. Segment_new V W = Inr s"
  using Segment_new_error_iff [of V W] by (cases "Segment_new V W") auto

lemma modulus_scaled:
  "modulus (Vec (k * e0 w) (k * e1 w) (k * e2 w)) = \<bar>k\<bar> * modulus w"
proof -
  have "dot (Vec (k * e0 w) (k * e1 w) (k * e2 w)) (Vec (k * e0 w) (k * e1 w) (k * e2 w))
      = k\<^sup>2 * dot w w"
    by (simp add: dot_def power2_eq_square algebra_simps)
  then show ?thesis
    by (simp add: modulus_def real_sqrt_mult)
qed

lemma Segment_contains_on:
  assumes s: "Segment_new V W = Inr s" and p: "0 \<le> prec" and t: "0 \<le> t" "t \<le> 1"
    and q: "q = Vec (e0 V + t * (e0 W - e0 V)) (e1 V + t * (e1 W - e1 V)) (e2 V + t * (e2 W - e2 V))"
  shows "Segment_contains prec s q"
proof (cases "eql prec (seg_start s) q")
  case True
  then show ?thesis by (simp add: Segment_contains_def)
next
  case False
  from Segment_new_ok [OF s] have ne: "V \<noteq> W" and st: "seg_start s = V" "seg_end s = W"
    by simp_all
  let ?w = "Vec (e0 W - e0 V) (e1 W - e1 V) (e2 W - e2 V)"
  let ?V = "Vec (e0 V - e0 q) (e1 V - e1 q) (e2 V - e2 q)"
  have wv: "Segment_toVector s = ?w" by (simp add: Segment_toVector_def st)
  have "?w \<noteq> Vec 0 0 0" using ne by (cases V; cases W) auto
  then have mw: "0 < modulus ?w"
    using modulus_nonneg [of ?w] modulus_zero_iff [of ?w] by linarith
  have t0: "t \<noteq> 0"
  proof
    assume "t = 0"
    with q have "q = V" by (cases V) simp
    with False st p show False by (simp add: eql_def)
  qed
  with t have tpos: "0 < t" by simp
  have Veq: "?V = Vec ((- t) * e0 ?w) ((- t) * e1 ?w) ((- t) * e2 ?w)"
    by (simp add: q algebra_simps)
  have mV: "modulus ?V = t * modulus ?w"
    using modulus_scaled [of "- t" ?w] tpos by (simp only: Veq)
  have dV: "dot ?V ?w = - t * (modulus ?w * modulus ?w)"
  proof -
    have "modulus ?w * modulus ?w = dot ?w ?w"
      by (simp add: modulus_def dot_self_nonneg)
    moreover have "dot ?V ?w = - t * dot ?w ?w"
      by (simp only: Veq) (simp add: dot_def algebra_simps)
    ultimately show ?thesis by simp
  qed
  have nz: "modulus ?V * modulus ?w \<noteq> 0" using mV mw tpos by simp
  have "dot ?V ?w / (modulus ?V * modulus ?w) = - 1"
    using mw tpos by (simp add: dV mV)
  with nz have "angleFrom ?V ?w = Some pi"
    by (simp add: angleFrom_def)
  then have anti: "truthy (isAntiparallelTo prec ?V ?w)"
    using p by (simp add: isAntiparallelTo_def truthy_def)
  have le: "modulus ?V \<le> modulus ?w"
    using mV mw t by (simp add: mult_left_le_one_le)
  from False anti le show ?thesis
    by (simp add: Segment_contains_def Let_def wv st)
qed

lemma some_edge_hit:
  assumes "\<forall>(V, W)\<in>set es. V \<noteq> W"
    and "(V, W) \<in> set es" and "Segment_new V W = Inr s" and "Segment_contains prec s q"
  shows "some_edge prec q es = Inr True"
  using assms
proof (induction es)
  case Nil
  then show ?case by simp
next
  case (Cons e es)
  obtain V' W' where e: "e = (V', W')" by (cases e)
  with Cons.prems(1) have "V' \<noteq> W'" by simp
  then obtain s' where s': "Segment_new V' W' = Inr s'"
    using Segment_new_total by blast
  show ?case
  proof (cases "Segment_contains prec s' q")
    case True
    with e s' show ?thesis by simp
  next
    case False
    with Cons.prems e s' have "(V, W) \<in> set es" by auto
    with Cons.IH Cons.prems have "some_edge prec q es = Inr True" by simp
    with e s' False show ?thesis by simp
  qed
qed

lemma vertex_has_edge: "v \<in> set xs \<Longrightarrow> \<exists>w. (v, w) \<in> set (edges xs)"
proof -
  assume "v \<in> set xs"
  then obtain i where i: "i < length xs" "xs ! i = v" by (auto simp: in_set_conv_nth)
  then have "(xs ! i, rotate1 xs ! i) \<in> set (zip xs (rotate1 xs))"
    by (intro nth_zip [THEN subst, of i xs "rotate1 xs" "\<lambda>p. p \<in> set (zip xs (rotate1 xs))"] nth_mem) simp_all
  with i(2) show ?thesis unfolding edges_def by blast
qed

lemma on_edge_rejected:
  assumes p: "0 \<le> prec" and nz: "\<forall>(V, W)\<in>set (edges (vertices P)). V \<noteq> W"
    and e: "(V, W) \<in> set (edges (vertices P))" and t: "0 \<le> t" "t \<le> 1"
    and q: "q = Vec (e0 V + t * (e0 W - e0 V)) (e1 V + t * (e1 W - e1 V)) (e2 V + t * (e2 W - e2 V))"
  shows "Polygon_contains prec P q epsilon = Inr False"
proof -
  from nz e have "case (V, W) of (V, W) \<Rightarrow> V \<noteq> W" by (rule bspec)
  then have "V \<noteq> W" by simp
  then obtain s where s: "Segment_new V W = Inr s" using Segment_new_total by blast
  have "Segment_contains prec s q" by (rule Segment_contains_on [OF s p t q])
  with nz e s have "hasEdgeContaining prec P q = Inr True"
    unfolding hasEdgeContaining_def by (rule some_edge_hit)
  then show ?thesis
    by (simp add: Polygon_contains_def containsByWindingNumber_def edge_rejection_def)
qed

lemma vertex_rejected:
  assumes p: "0 \<le> prec" and nz: "\<forall>(V, W)\<in>set (edges (vertices P)). V \<noteq> W"
    and v: "q \<in> set (vertices P)"
  shows "Polygon_contains prec P q epsilon = Inr False"
proof -
  from vertex_has_edge [OF v] obtain w where e: "(q, w) \<in> set (edges (vertices P))"
    by (rule exE)
  have qq: "q = Vec (e0 q + 0 * (e0 w - e0 q)) (e1 q + 0 * (e1 w - e1 q)) (e2 q + 0 * (e2 w - e2 q))"
    by simp
  show ?thesis
    by (rule on_edge_rejected [OF p nz e _ _ qq]) simp_all
qed

section \<open>Steps of the ear-clipping loop\<close>

lemma ear_scan_accept:
  assumes "ring_at (convexVertices poly) (offset + i) = Some c"
    and "findNode (vertices poly) c (vertexCompare prec) = Some m"
    and "Polygon_new prec
           [vertices poly ! m, node_next (vertices poly) m, node_prev (vertices poly) m] pl =
         Inr trig"
    and "some_reflex prec trig (node_prev (vertices poly) m) (node_next (vertices poly) m)
           (reflexVertices poly) = Inr False"
  shows "ear_scan prec pl poly offset (i # rest) = Inr (Some (trig, vertices poly ! m))"
  by (simp add: assms Let_def)

lemma loop_done:
  "isTriangle poly \<Longrightarrow>
     triangulate_loop prec random pl rnd poly triangles = Inr (triangles @ [poly])"
  by (subst triangulate_loop.simps) simp

lemma loop_step:
  assumes "\<not> isTriangle poly"
    and "ear_scan prec pl poly (nat \<lfloor>random rnd * real (length (convexVertices poly))\<rfloor>)
           [0..<length (convexVertices poly)] = Inr (Some (trig, d))"
    and "removeVertex prec poly d = Inr poly'"
  shows "triangulate_loop prec random pl rnd poly triangles =
         triangulate_loop prec random pl (Suc rnd) poly' (triangles @ [trig])"
  by (subst triangulate_loop.simps) (simp add: assms Let_def)


lemma Polygon_scale_result:
  assumes "Polygon_scale prec P k c = Inr Q"
  shows "vertices Q = map (\<lambda>v. Vec (e0 c + k * (e0 v - e0 c)) (e1 c + k * (e1 v - e1 c))
                                   (e2 c + k * (e2 v - e2 c))) (vertices P) \<and>
         plane Q = Plane_new (hd (vertices P)) (plane_normal (plane P))"
  using assms Polygon_new_keeps
  by (cases "vertices P") (auto simp: Polygon_scale_def)
















text \<open>
  A scan of the convex ring from any offset visits every convex vertex, so it returns
  no candidate only when the test rejects each of them, and the loop raises the
  no-candidate error only at a polygon that it has reached and on which no convex vertex
  is an accepted ear.
\<close>

lemma ear_scan_Cons:
  "ear_scan prec pl poly offset (i # rest) =
     (case ear_candidate prec pl poly (offset + i) of
        Inl err \<Rightarrow> Inl err
      | Inr None \<Rightarrow> ear_scan prec pl poly offset rest
      | Inr (Some r) \<Rightarrow> Inr (Some r))"
  by (simp add: ear_candidate_def Let_def split: option.splits sum.splits bool.splits)




lemma ear_scan_all_None:
  "\<forall>i\<in>set ixs. ear_candidate prec pl poly (offset + i) = Inr None \<Longrightarrow>
     ear_scan prec pl poly offset ixs = Inr None"
  by (induction ixs) (simp_all add: ear_scan_Cons del: ear_scan.simps(2))









section \<open>Evaluation of the examples\<close>

lemmas vec_evals = nodeFor_def vertexCompare_def eql_def node_next_def node_prev_def
  subtract_def dot_def cross_def

lemma unit_square_new:
  "Polygon_new (1 / 1000000) [Vec 0 0 0, Vec 1 0 0, Vec 1 1 0, Vec 0 1 0] xy_plane = Inr unit_square"
proof -
  let ?P = "\<lparr> plane = xy_plane, vertices = [Vec 0 0 0, Vec 1 0 0, Vec 1 1 0, Vec 0 1 0],
              convexVertices = [], reflexVertices = [] \<rparr>"
  have "\<forall>v\<in>set [Vec 0 0 0, Vec 1 0 0, Vec 1 1 0, Vec 0 1 0].
          Vertex_isConvex (1 / 1000000) v ?P = Inr ((\<lambda>v. True) v)"
    by (auto intro!: trans [OF isConvex_decide [OF _ _ _ refl refl]] simp: vec_evals)
  from Polygon_new_eval [OF this] show ?thesis by simp
qed

lemma unit_square_edges:
  "edges [Vec 0 0 0, Vec 1 0 0, Vec 1 1 0, Vec 0 1 0] =
     [(Vec 0 0 0, Vec 1 0 0), (Vec 1 0 0, Vec 1 1 0), (Vec 1 1 0, Vec 0 1 0), (Vec 0 1 0, Vec 0 0 0)]"
  by (simp add: edges_def)

lemma repeated_vertex_polygon_new:
  "Polygon_new (1 / 1000000) [Vec 0 0 0, Vec 0 0 0, Vec 1 0 0, Vec 0 1 0] xy_plane =
     Inr repeated_vertex_polygon"
proof -
  let ?P = "\<lparr> plane = xy_plane, vertices = [Vec 0 0 0, Vec 0 0 0, Vec 1 0 0, Vec 0 1 0],
              convexVertices = [], reflexVertices = [] \<rparr>"
  have z: "Vertex_isConvex (1 / 1000000) (Vec 0 0 0) ?P = Inr True"
    by (simp add: Vertex_isConvex_def Let_def vec_evals angleFrom_def modulus_def num_def)
  have a: "Vertex_isConvex (1 / 1000000) (Vec 1 0 0) ?P = Inr True"
    by (rule trans [OF isConvex_decide [OF _ _ _ refl refl]])
       (simp_all add: vec_evals)+
  have b: "Vertex_isConvex (1 / 1000000) (Vec 0 1 0) ?P = Inr True"
    by (rule trans [OF isConvex_decide [OF _ _ _ refl refl]])
       (simp_all add: vec_evals)+
  from z a b have "\<forall>v\<in>set [Vec 0 0 0, Vec 0 0 0, Vec 1 0 0, Vec 0 1 0].
          Vertex_isConvex (1 / 1000000) v ?P = Inr ((\<lambda>v. True) v)"
    by simp
  from Polygon_new_eval [OF this] show ?thesis by simp
qed

lemma dart_new: "Polygon_new (1 / 1000000) dart_points xy_plane = Inr dart"
proof -
  let ?P = "\<lparr> plane = xy_plane, vertices = dart_points, convexVertices = [], reflexVertices = [] \<rparr>"
  have "\<forall>v\<in>set dart_points.
          Vertex_isConvex (1 / 1000000) v ?P = Inr ((\<lambda>v. v \<noteq> Vec 1 1 0) v)"
    by (auto intro!: trans [OF isConvex_decide [OF _ _ _ refl refl]] simp: vec_evals)
  from Polygon_new_eval [OF this] show ?thesis by simp
qed

lemma dart_ear_new:
  "Polygon_new (1 / 1000000) [Vec 4 0 0, Vec 1 1 0, Vec 0 0 0] xy_plane =
     Inr (triangle (Vec 4 0 0) (Vec 1 1 0) (Vec 0 0 0) True)"
proof -
  let ?P = "\<lparr> plane = xy_plane, vertices = [Vec 4 0 0, Vec 1 1 0, Vec 0 0 0],
              convexVertices = [], reflexVertices = [] \<rparr>"
  have "\<forall>v\<in>set [Vec 4 0 0, Vec 1 1 0, Vec 0 0 0].
          Vertex_isConvex (1 / 1000000) v ?P = Inr ((\<lambda>v. True) v)"
    by (auto intro!: trans [OF isConvex_decide [OF _ _ _ refl refl]] simp: vec_evals)
  from Polygon_new_eval [OF this] show ?thesis by simp
qed

lemma dart_rest_new:
  "Polygon_new (1 / 1000000) [Vec 1 1 0, Vec 0 4 0, Vec 0 0 0] xy_plane =
     Inr (triangle (Vec 1 1 0) (Vec 0 4 0) (Vec 0 0 0) True)"
proof -
  let ?P = "\<lparr> plane = xy_plane, vertices = [Vec 1 1 0, Vec 0 4 0, Vec 0 0 0],
              convexVertices = [], reflexVertices = [] \<rparr>"
  have "\<forall>v\<in>set [Vec 1 1 0, Vec 0 4 0, Vec 0 0 0].
          Vertex_isConvex (1 / 1000000) v ?P = Inr ((\<lambda>v. True) v)"
    by (auto intro!: trans [OF isConvex_decide [OF _ _ _ refl refl]] simp: vec_evals)
  from Polygon_new_eval [OF this] show ?thesis by simp
qed

lemma dart_fan1_new:
  "Polygon_new (1 / 1000000) [Vec 4 0 0, Vec 1 1 0, Vec 0 4 0] xy_plane =
     Inr (triangle (Vec 4 0 0) (Vec 1 1 0) (Vec 0 4 0) False)"
proof -
  let ?P = "\<lparr> plane = xy_plane, vertices = [Vec 4 0 0, Vec 1 1 0, Vec 0 4 0],
              convexVertices = [], reflexVertices = [] \<rparr>"
  have "\<forall>v\<in>set [Vec 4 0 0, Vec 1 1 0, Vec 0 4 0].
          Vertex_isConvex (1 / 1000000) v ?P = Inr ((\<lambda>v. False) v)"
    by (auto intro!: trans [OF isConvex_decide [OF _ _ _ refl refl]] simp: vec_evals)
  from Polygon_new_eval [OF this] show ?thesis by simp
qed

lemma dart_fan2_new:
  "Polygon_new (1 / 1000000) [Vec 4 0 0, Vec 0 4 0, Vec 0 0 0] xy_plane =
     Inr (triangle (Vec 4 0 0) (Vec 0 4 0) (Vec 0 0 0) True)"
proof -
  let ?P = "\<lparr> plane = xy_plane, vertices = [Vec 4 0 0, Vec 0 4 0, Vec 0 0 0],
              convexVertices = [], reflexVertices = [] \<rparr>"
  have "\<forall>v\<in>set [Vec 4 0 0, Vec 0 4 0, Vec 0 0 0].
          Vertex_isConvex (1 / 1000000) v ?P = Inr ((\<lambda>v. True) v)"
    by (auto intro!: trans [OF isConvex_decide [OF _ _ _ refl refl]] simp: vec_evals)
  from Polygon_new_eval [OF this] show ?thesis by simp
qed


lemma sqrt_sq: "0 \<le> y \<Longrightarrow> x = y * y \<Longrightarrow> sqrt x = (y::real)"
  by (simp add: real_sqrt_mult)

lemma dart_ear_scan:
  "ear_scan (1 / 1000000) xy_plane dart 0 (0 # rest) =
     Inr (Some (triangle (Vec 4 0 0) (Vec 1 1 0) (Vec 0 0 0) True, Vec 4 0 0))"
proof -
  have r: "ring_at (convexVertices dart) (0 + 0) = Some (Vec 4 0 0)"
    by (simp add: ring_at_def)
  have f: "findNode (vertices dart) (Vec 4 0 0) (vertexCompare (1 / 1000000)) = Some 0"
    by (simp add: vec_evals)
  have t: "Polygon_new (1 / 1000000)
      [vertices dart ! 0, node_next (vertices dart) 0, node_prev (vertices dart) 0] xy_plane =
      Inr (triangle (Vec 4 0 0) (Vec 1 1 0) (Vec 0 0 0) True)"
    using dart_ear_new by (simp add: node_next_def node_prev_def)
  have sr: "some_reflex (1 / 1000000) (triangle (Vec 4 0 0) (Vec 1 1 0) (Vec 0 0 0) True)
      (node_prev (vertices dart) 0) (node_next (vertices dart) 0) (reflexVertices dart) = Inr False"
    by (simp add: node_next_def node_prev_def)
  from ear_scan_accept [OF r f t sr] show ?thesis by simp
qed

lemma dart_toTriangles:
  "toTriangles (1 / 1000000) (\<lambda>_. 0) dart =
     Inr [triangle (Vec 4 0 0) (Vec 1 1 0) (Vec 0 0 0) True,
          triangle (Vec 1 1 0) (Vec 0 4 0) (Vec 0 0 0) True]"
proof -
  have nt: "\<not> isTriangle dart" by (simp add: isTriangle_def)
  have es: "ear_scan (1 / 1000000) xy_plane dart
       (nat \<lfloor>(\<lambda>_. 0) (0::nat) * real (length (convexVertices dart))\<rfloor>)
       [0..<length (convexVertices dart)] =
     Inr (Some (triangle (Vec 4 0 0) (Vec 1 1 0) (Vec 0 0 0) True, Vec 4 0 0))"
    using dart_ear_scan [of "[Suc 0, Suc (Suc 0)]"] by (simp add: upt_rec)
  have rv: "removeVertex (1 / 1000000) dart (Vec 4 0 0) =
      Inr (triangle (Vec 1 1 0) (Vec 0 4 0) (Vec 0 0 0) True)"
    using dart_rest_new by (simp add: removeVertex_def isTriangle_def eql_def)
  have t: "isTriangle (triangle (Vec 1 1 0) (Vec 0 4 0) (Vec 0 0 0) True)"
    by (simp add: isTriangle_def)
  show ?thesis
    unfolding toTriangles_def triangulateByEarClipping_def
    by (simp only: polygon.simps loop_step [OF nt es rv] loop_done [OF t]) simp
qed

lemma dart_ear_areas:
  "triangle_area (triangle (Vec 4 0 0) (Vec 1 1 0) (Vec 0 0 0) True) = 2"
  "triangle_area (triangle (Vec 1 1 0) (Vec 0 4 0) (Vec 0 0 0) True) = 2"
  by (simp_all add: triangle_area_def modulus_def dot_def sqrt_sq [of 4])

lemma dart_fan_areas:
  "triangle_area (triangle (Vec 4 0 0) (Vec 1 1 0) (Vec 0 4 0) False) = 4"
  "triangle_area (triangle (Vec 4 0 0) (Vec 0 4 0) (Vec 0 0 0) True) = 8"
  by (simp_all add: triangle_area_def modulus_def dot_def sqrt_sq [of 8] sqrt_sq [of 16])

lemma dart_fan:
  "trianglesForSurfaceIntegral (1 / 1000000) fromPoints dart =
     Inr [triangle (Vec 4 0 0) (Vec 1 1 0) (Vec 0 4 0) False,
          triangle (Vec 4 0 0) (Vec 0 4 0) (Vec 0 0 0) True]"
proof -
  have c1: "colinear (1 / 1000000) (Vec 4 0 0) (Vec 1 1 0) (Vec 0 4 0)"
    by (simp add: colinear_def)
  have c2: "colinear (1 / 1000000) (Vec 4 0 0) (Vec 0 4 0) (Vec 0 0 0)"
    by (simp add: colinear_def)
  show ?thesis
    by (simp add: trianglesForSurfaceIntegral_def c1 c2 dart_fan1_new dart_fan2_new)
qed

lemma dart_area: "Polygon_area (1 / 1000000) fromPoints dart = Inr 12"
  by (simp add: Polygon_area_def isTriangle_def dart_fan dart_fan_areas [simplified] dot_def)


lemma raised_square_new:
  "Polygon_new (1 / 1000000) [Vec 0 0 1, Vec 1 0 1, Vec 1 1 1, Vec 0 1 1] raised_plane =
     Inr raised_square"
proof -
  let ?P = "\<lparr> plane = raised_plane, vertices = [Vec 0 0 1, Vec 1 0 1, Vec 1 1 1, Vec 0 1 1],
              convexVertices = [], reflexVertices = [] \<rparr>"
  have "\<forall>v\<in>set [Vec 0 0 1, Vec 1 0 1, Vec 1 1 1, Vec 0 1 1].
          Vertex_isConvex (1 / 1000000) v ?P = Inr ((\<lambda>v. True) v)"
    by (auto intro!: trans [OF isConvex_decide [OF _ _ _ refl refl]] simp: vec_evals)
  from Polygon_new_eval [OF this] show ?thesis by simp
qed

lemma scaled_square_new:
  "Polygon_new (1 / 1000000) [Vec 0 0 2, Vec 2 0 2, Vec 2 2 2, Vec 0 2 2] raised_plane =
     Inr \<lparr> plane = raised_plane,
           vertices = [Vec 0 0 2, Vec 2 0 2, Vec 2 2 2, Vec 0 2 2],
           convexVertices = [Vec 0 0 2, Vec 2 0 2, Vec 2 2 2, Vec 0 2 2],
           reflexVertices = [] \<rparr>"
proof -
  let ?P = "\<lparr> plane = raised_plane, vertices = [Vec 0 0 2, Vec 2 0 2, Vec 2 2 2, Vec 0 2 2],
              convexVertices = [], reflexVertices = [] \<rparr>"
  have "\<forall>v\<in>set [Vec 0 0 2, Vec 2 0 2, Vec 2 2 2, Vec 0 2 2].
          Vertex_isConvex (1 / 1000000) v ?P = Inr ((\<lambda>v. True) v)"
    by (auto intro!: trans [OF isConvex_decide [OF _ _ _ refl refl]] simp: vec_evals)
  from Polygon_new_eval [OF this] show ?thesis by simp
qed


lemma near_point_convex:
  "Vertex_isConvex (1 / 1000000) near_point
     \<lparr> plane = pl, vertices = Vec 0 0 0 # a # rest @ [near_point], convexVertices = cs,
       reflexVertices = rs \<rparr> = Inr True"
  by (simp add: Vertex_isConvex_def Let_def vec_evals angleFrom_def modulus_def num_def)

lemma near_ring_new:
  "Polygon_new (1 / 1000000) [Vec 0 0 0, Vec 4 0 0, Vec 4 4 0, Vec 0 4 0, near_point] xy_plane =
     Inr near_ring"
proof -
  let ?P = "\<lparr> plane = xy_plane, vertices = [Vec 0 0 0, Vec 4 0 0, Vec 4 4 0, Vec 0 4 0, near_point],
              convexVertices = [], reflexVertices = [] \<rparr>"
  have w: "Vertex_isConvex (1 / 1000000) near_point ?P = Inr True"
    using near_point_convex [of xy_plane "Vec 4 0 0" "[Vec 4 4 0, Vec 0 4 0]" "[]" "[]"] by simp
  have o: "\<forall>v\<in>set [Vec 0 0 0, Vec 4 0 0, Vec 4 4 0, Vec 0 4 0].
          Vertex_isConvex (1 / 1000000) v ?P = Inr True"
    by (auto intro!: trans [OF isConvex_decide [OF _ _ _ refl refl]]
          simp: vec_evals power2_eq_square)
  from w o have "\<forall>v\<in>set [Vec 0 0 0, Vec 4 0 0, Vec 4 4 0, Vec 0 4 0, near_point].
          Vertex_isConvex (1 / 1000000) v ?P = Inr ((\<lambda>v. True) v)"
    by simp
  from Polygon_new_eval [OF this] show ?thesis by simp
qed






section \<open>Scaling\<close>

text \<open>
  C1 at the unit square of the plane \<open>z = 1\<close>, scaled by 2 about the origin: the
  vertices of the result are \<open>c + k (v - c)\<close>, at height 2, and its plane is anchored
  at the first vertex of the receiver, \<open>(0, 0, 1)\<close>, not at the first transformed vertex
  \<open>(0, 0, 2)\<close>, which the plane of the result does not contain.
\<close>

theorem scale_keeps_plane_anchor:
  "Polygon_new (1 / 1000000) [Vec 0 0 1, Vec 1 0 1, Vec 1 1 1, Vec 0 1 1] raised_plane =
     Inr raised_square \<and>
   Polygon_scale (1 / 1000000) raised_square 2 (Vec 0 0 0) =
     Inr \<lparr> plane = \<lparr> plane_anchor = Vec 0 0 1, plane_normal = Vec 0 0 1 \<rparr>,
           vertices = [Vec 0 0 2, Vec 2 0 2, Vec 2 2 2, Vec 0 2 2],
           convexVertices = [Vec 0 0 2, Vec 2 0 2, Vec 2 2 2, Vec 0 2 2],
           reflexVertices = [] \<rparr> \<and>
   \<not> Plane_contains \<lparr> plane_anchor = Vec 0 0 1, plane_normal = Vec 0 0 1 \<rparr> (Vec 0 0 2)
       (1 / 1000000)"
proof -
  have u: "toUnitVector (Vec 0 0 1) = Vec 0 0 1"
    by (simp add: toUnitVector_def modulus_def dot_def)
  have "Polygon_scale (1 / 1000000) raised_square 2 (Vec 0 0 0) =
     Polygon_new (1 / 1000000) [Vec 0 0 2, Vec 2 0 2, Vec 2 2 2, Vec 0 2 2] raised_plane"
    by (simp add: Polygon_scale_def Plane_new_def u)
  with raised_square_new scaled_square_new show ?thesis
    by (simp add: Plane_contains_def dot_def subtract_def)
qed

section \<open>Area against triangulation\<close>

text \<open>
  C2 at the dart, whose area is 4: the two triangles of \<^verbatim>\<open>toTriangles\<close> have the areas
  2 and 2, and \<^verbatim>\<open>area\<close> returns 12, each fan triangle being weighted with the parent's
  own normal.
\<close>

theorem area_differs_from_triangulation:
  "Polygon_new (1 / 1000000) dart_points xy_plane = Inr dart \<and>
   toTriangles (1 / 1000000) (\<lambda>_. 0) dart =
     Inr [triangle (Vec 4 0 0) (Vec 1 1 0) (Vec 0 0 0) True,
          triangle (Vec 1 1 0) (Vec 0 4 0) (Vec 0 0 0) True] \<and>
   triangle_area (triangle (Vec 4 0 0) (Vec 1 1 0) (Vec 0 0 0) True) +
     triangle_area (triangle (Vec 1 1 0) (Vec 0 4 0) (Vec 0 0 0) True) = 4 \<and>
   Polygon_area (1 / 1000000) fromPoints dart = Inr 12"
  using dart_new dart_toTriangles dart_ear_areas dart_area [of fromPoints]
  by (simp only: simp_thms)

section \<open>Ear clipping\<close>




section \<open>Containment of boundary points\<close>

text \<open>
  C4, as amended: \<^verbatim>\<open>P.contains(q, epsilon)\<close> returns false for every polygon \<open>P\<close>
  whenever \<open>q\<close> does not lie in the plane of \<open>P\<close> within \<open>epsilon\<close>; and, for a
  polygon none of whose edges joins a vertex to an identical one, it returns false for
  every vertex of \<open>P\<close> and for every point \<open>V + t (W - V)\<close>, \<open>0 \<le> t \<le> 1\<close>, of an
  edge \<open>(V, W)\<close>.
\<close>

theorem contains_rejects_boundary:
  "(\<not> Plane_contains (plane P) q epsilon \<longrightarrow> Polygon_contains prec P q epsilon = Inr False) \<and>
   (0 \<le> prec \<and> (\<forall>(V, W)\<in>set (edges (vertices P)). V \<noteq> W) \<and>
    (q \<in> set (vertices P) \<or>
     (\<exists>(V, W)\<in>set (edges (vertices P)). \<exists>t. 0 \<le> t \<and> t \<le> 1 \<and>
        q = Vec (e0 V + t * (e0 W - e0 V)) (e1 V + t * (e1 W - e1 V)) (e2 V + t * (e2 W - e2 V))))
    \<longrightarrow> Polygon_contains prec P q epsilon = Inr False)"
proof (intro conjI impI, goal_cases)
  case 1
  then show ?case
    by (simp add: Polygon_contains_def containsByWindingNumber_def)
next
  case 2
  then have p: "0 \<le> prec" and nz: "\<forall>(V, W)\<in>set (edges (vertices P)). V \<noteq> W"
    by blast+
  from 2 consider (vertex) "q \<in> set (vertices P)"
    | (edge) "\<exists>(V, W)\<in>set (edges (vertices P)). \<exists>t. 0 \<le> t \<and> t \<le> 1 \<and>
        q = Vec (e0 V + t * (e0 W - e0 V)) (e1 V + t * (e1 W - e1 V)) (e2 V + t * (e2 W - e2 V))"
    by blast
  then show ?case
  proof cases
    case vertex
    with p nz show ?thesis by (rule vertex_rejected)
  next
    case edge
    then obtain e where e: "e \<in> set (edges (vertices P))"
      and ex: "case e of (V, W) \<Rightarrow> \<exists>t. 0 \<le> t \<and> t \<le> 1 \<and>
        q = Vec (e0 V + t * (e0 W - e0 V)) (e1 V + t * (e1 W - e1 V)) (e2 V + t * (e2 W - e2 V))"
      by (rule bexE)
    obtain V W where vw: "e = (V, W)" by (cases e)
    from ex obtain t where t: "0 \<le> t" "t \<le> 1"
      and q: "q = Vec (e0 V + t * (e0 W - e0 V)) (e1 V + t * (e1 W - e1 V)) (e2 V + t * (e2 W - e2 V))"
      unfolding vw prod.case by (elim exE conjE)
    from e have "(V, W) \<in> set (edges (vertices P))" by (simp only: vw)
    then show ?thesis by (rule on_edge_rejected [OF p nz _ t q])
  qed
qed

theorem contains_rejects_boundary_witness:
  "Polygon_contains (1 / 1000000) unit_square (Vec (1 / 2) 0 5) (1 / 1000000) = Inr False \<and>
   Polygon_contains (1 / 1000000) unit_square (Vec (1 / 2) 0 0) (1 / 1000000) = Inr False \<and>
   Polygon_contains (1 / 1000000) unit_square (Vec 1 1 0) (1 / 1000000) = Inr False"
proof -
  have a: "\<not> Plane_contains (plane unit_square) (Vec (1 / 2) 0 5) (1 / 1000000)"
    by (simp add: Plane_contains_def dot_def subtract_def)
  have nz: "\<forall>(V, W)\<in>set (edges (vertices unit_square)). V \<noteq> W"
    by (simp add: unit_square_edges)
  have b: "\<exists>(V, W)\<in>set (edges (vertices unit_square)). \<exists>t. 0 \<le> t \<and> t \<le> 1 \<and>
      Vec (1 / 2) 0 0 =
        Vec (e0 V + t * (e0 W - e0 V)) (e1 V + t * (e1 W - e1 V)) (e2 V + t * (e2 W - e2 V))"
    by (simp only: polygon.simps unit_square_edges)
       (rule bexI [of _ "(Vec 0 0 0, Vec 1 0 0)"], simp, rule exI [of _ "1 / 2"], simp_all)
  have c: "Vec 1 1 0 \<in> set (vertices unit_square)" by simp
  from contains_rejects_boundary [of unit_square "Vec (1 / 2) 0 5" "1 / 1000000" "1 / 1000000"] a
  have 1: "Polygon_contains (1 / 1000000) unit_square (Vec (1 / 2) 0 5) (1 / 1000000) = Inr False"
    by blast
  from contains_rejects_boundary [of unit_square "Vec (1 / 2) 0 0" "1 / 1000000" "1 / 1000000"] nz b
  have 2: "Polygon_contains (1 / 1000000) unit_square (Vec (1 / 2) 0 0) (1 / 1000000) = Inr False"
    by simp
  from contains_rejects_boundary [of unit_square "Vec 1 1 0" "1 / 1000000" "1 / 1000000"] nz c
  have 3: "Polygon_contains (1 / 1000000) unit_square (Vec 1 1 0) (1 / 1000000) = Inr False"
    by simp
  from 1 2 3 show ?thesis by simp
qed

text \<open>
  C4 as stated fails on a polygon with a repeated vertex: the Segment of the edge that
  joins the two copies cannot be constructed, and a point of a later edge makes
  \<^verbatim>\<open>contains\<close> raise the dimensionality error where the claim has it return false.
\<close>

theorem contains_raises_on_repeated_vertex:
  "Polygon_new (1 / 1000000) [Vec 0 0 0, Vec 0 0 0, Vec 1 0 0, Vec 0 1 0] xy_plane =
     Inr repeated_vertex_polygon \<and>
   (Vec 0 0 0, Vec 1 0 0) \<in> set (edges (vertices repeated_vertex_polygon)) \<and>
   Vec (1 / 2) 0 0 = Vec (0 + 1 / 2 * (1 - 0)) 0 0 \<and>
   Plane_contains (plane repeated_vertex_polygon) (Vec (1 / 2) 0 0) (1 / 1000000) \<and>
   Polygon_contains (1 / 1000000) repeated_vertex_polygon (Vec (1 / 2) 0 0) (1 / 1000000) =
     Inl DimensionalityMismatchError \<and>
   Polygon_contains (1 / 1000000) repeated_vertex_polygon (Vec (1 / 2) 0 0) (1 / 1000000) \<noteq>
     Inr False"
proof -
  have s: "Segment_new (Vec 0 0 0) (Vec 0 0 0) = Inl DimensionalityMismatchError"
    by (simp add: Segment_new_error_iff)
  have e: "edges (vertices repeated_vertex_polygon) =
     [(Vec 0 0 0, Vec 0 0 0), (Vec 0 0 0, Vec 1 0 0), (Vec 1 0 0, Vec 0 1 0), (Vec 0 1 0, Vec 0 0 0)]"
    by (simp add: edges_def)
  have p: "Plane_contains (plane repeated_vertex_polygon) (Vec (1 / 2) 0 0) (1 / 1000000)"
    by (simp add: Plane_contains_def dot_def subtract_def)
  have "hasEdgeContaining (1 / 1000000) repeated_vertex_polygon (Vec (1 / 2) 0 0) =
      Inl DimensionalityMismatchError"
    by (simp only: hasEdgeContaining_def e some_edge.simps s sum.case)
  with p have "Polygon_contains (1 / 1000000) repeated_vertex_polygon (Vec (1 / 2) 0 0) (1 / 1000000) =
     Inl DimensionalityMismatchError"
    by (simp add: Polygon_contains_def containsByWindingNumber_def edge_rejection_def)
  with repeated_vertex_polygon_new e p show ?thesis by simp
qed

section \<open>The triangle fan\<close>

text \<open>
  C5 at the dart: the fan triangle on \<open>(4,0,0)\<close>, \<open>(1,1,0)\<close>, \<open>(0,4,0)\<close>, three
  points that are not collinear, passes the test the source calls \<^verbatim>\<open>colinear\<close> and is
  given the plane of the parent, whatever \<^verbatim>\<open>Plane.fromPoints\<close> would fit; and the
  collinear points \<open>(0,0,0)\<close>, \<open>(1,1,0)\<close>, \<open>(2,2,0)\<close> fail that test.
\<close>

theorem fan_takes_parent_plane_for_non_collinear:
  "cross (subtract (Vec 1 1 0) (Vec 4 0 0)) (subtract (Vec 0 4 0) (Vec 4 0 0)) \<noteq> Vec 0 0 0 \<and>
   colinear (1 / 1000000) (Vec 4 0 0) (Vec 1 1 0) (Vec 0 4 0) \<and>
   trianglesForSurfaceIntegral (1 / 1000000) fromPoints dart =
     Inr [triangle (Vec 4 0 0) (Vec 1 1 0) (Vec 0 4 0) False,
          triangle (Vec 4 0 0) (Vec 0 4 0) (Vec 0 0 0) True] \<and>
   plane (triangle (Vec 4 0 0) (Vec 1 1 0) (Vec 0 4 0) False) = plane dart \<and>
   cross (subtract (Vec 1 1 0) (Vec 0 0 0)) (subtract (Vec 2 2 0) (Vec 0 0 0)) = Vec 0 0 0 \<and>
   \<not> colinear (1 / 1000000) (Vec 0 0 0) (Vec 1 1 0) (Vec 2 2 0)"
  using dart_fan [of fromPoints]
  by (simp add: colinear_def cross_def subtract_def)

section \<open>Vertex classification\<close>

lemma findNode_first:
  "i < length xs \<Longrightarrow> p (xs ! i) v \<Longrightarrow> \<forall>j<i. \<not> p (xs ! j) v \<Longrightarrow> findNode xs v p = Some i"
proof (induction xs arbitrary: i)
  case Nil
  then show ?case by simp
next
  case (Cons x xs)
  show ?case
  proof (cases i)
    case 0
    with Cons.prems show ?thesis by simp
  next
    case (Suc k)
    with Cons.prems have "\<not> p x v" by auto
    moreover from Suc Cons.prems have "findNode xs v p = Some k"
      by (intro Cons.IH) auto
    ultimately show ?thesis using Suc by simp
  qed
qed

text \<open>
  C6, as amended: let \<open>v\<close> be the vertex at position \<open>i\<close> of the ring of \<open>P\<close>, no
  earlier vertex of the ring being equal to \<open>v\<close> within the precision, with
  \<open>A = next - v\<close>, \<open>B = prev - v\<close> for the ring neighbours of position \<open>i\<close> and
  \<open>theta\<close> the angle between \<open>A\<close> and \<open>B\<close>. Then \<open>theta\<close> lies in \<open>[0, \<pi>]\<close>,
  \<^verbatim>\<open>v.isConvex(P)\<close> returns true when \<open>theta \<le> precision\<close>, false when
  \<open>|theta - \<pi>| \<le> precision\<close>, and otherwise whether \<open>(A \<times> B) \<cdot> normal > 0\<close>; and
  \<^verbatim>\<open>v.isReflex(P)\<close> returns the negation.
\<close>

theorem Vertex_isConvex_policy:
  assumes "0 \<le> prec"
    and "i < length (vertices P)"
    and "vertices P ! i = v"
    and "\<forall>j<i. \<not> eql prec (vertices P ! j) v"
    and "A = subtract (vertices P ! (Suc i mod length (vertices P))) v"
    and "B = subtract (vertices P ! ((i + length (vertices P) - 1) mod length (vertices P))) v"
    and "angleFrom A B = Some theta"
  shows "0 \<le> theta \<and> theta \<le> pi \<and>
    Vertex_isConvex prec v P =
      Inr (if theta \<le> prec then True
           else if \<bar>theta - pi\<bar> \<le> prec then False
           else dot (cross A B) (plane_normal (plane P)) > 0) \<and>
    Vertex_isReflex prec v P =
      Inr (\<not> (if theta \<le> prec then True
              else if \<bar>theta - pi\<bar> \<le> prec then False
              else dot (cross A B) (plane_normal (plane P)) > 0))"
proof -
  from assms(1,3) have "vertexCompare prec (vertices P ! i) v"
    by (simp add: vertexCompare_def eql_refl_iff)
  moreover from assms(4) have "\<forall>j<i. \<not> vertexCompare prec (vertices P ! j) v"
    by (simp add: vertexCompare_def)
  ultimately have n: "nodeFor prec P v = Some i"
    unfolding nodeFor_def using assms(2) by (intro findNode_first)
  from assms(7) have r: "0 \<le> theta \<and> theta \<le> pi" by (rule angleFrom_range)
  from n assms(5,6,7) have "Vertex_isConvex prec v P =
      Inr (if theta \<le> prec then True
           else if \<bar>theta - pi\<bar> \<le> prec then False
           else dot (cross A B) (plane_normal (plane P)) > 0)"
    by (simp add: Vertex_isConvex_def Let_def num_def node_next_def node_prev_def)
  with r show ?thesis by (simp add: Vertex_isReflex_def)
qed

theorem Vertex_isConvex_policy_witness:
  "Vertex_isConvex (1 / 1000000) (Vec 1 1 0) unit_square = Inr True \<and>
   Vertex_isReflex (1 / 1000000) (Vec 1 1 0) unit_square = Inr False \<and>
   vertices unit_square ! 2 = Vec 1 1 0"
proof -
  have a: "angleFrom (Vec (- 1) 0 0) (Vec 0 (- 1) 0) = Some (pi / 2)"
    by (simp add: angleFrom_def modulus_def dot_def)
  have p: "\<not> pi / 2 \<le> 1 / 1000000" "\<not> \<bar>pi / 2 - pi\<bar> \<le> 1 / 1000000"
    using pi_ge_two by simp_all
  have f: "\<forall>j<2. \<not> eql (1 / 1000000) (vertices unit_square ! j) (Vec 1 1 0)"
    by (auto simp: eql_def less_Suc_eq numeral_2_eq_2)
  have A: "Vec (- 1) 0 0 = subtract (vertices unit_square ! (Suc 2 mod length (vertices unit_square))) (Vec 1 1 0)"
    by (simp add: subtract_def)
  have B: "Vec 0 (- 1) 0 = subtract (vertices unit_square !
      ((2 + length (vertices unit_square) - 1) mod length (vertices unit_square))) (Vec 1 1 0)"
    by (simp add: subtract_def)
  from Vertex_isConvex_policy [OF _ _ _ f A B a] p show ?thesis
    by (simp add: dot_def cross_def)
qed

text \<open>
  C6 as stated fails at the last vertex \<open>w\<close> of the ring \<open>(0,0,0)\<close>, \<open>(4,0,0)\<close>,
  \<open>(4,4,0)\<close>, \<open>(0,4,0)\<close>, \<open>w\<close>, which the first vertex equals within the precision. At
  the corner of \<open>w\<close> the angle between \<open>A\<close> and \<open>B\<close> is away from 0 and from \<open>\<pi>\<close> by
  more than the precision and \<open>(A \<times> B) \<cdot> normal\<close> is negative, so the policy answers
  reflex; \<^verbatim>\<open>nodeFor\<close> finds the first vertex instead, whose previous vertex is \<open>w\<close>
  itself, and \<^verbatim>\<open>w.isConvex(P)\<close> returns true.
\<close>

theorem isConvex_of_near_vertex:
  "Polygon_new (1 / 1000000) [Vec 0 0 0, Vec 4 0 0, Vec 4 4 0, Vec 0 4 0, near_point] xy_plane =
     Inr near_ring \<and>
   vertices near_ring ! 4 = near_point \<and>
   angleFrom (subtract (vertices near_ring ! 0) near_point)
             (subtract (vertices near_ring ! 3) near_point) \<noteq> None \<and>
   1 / 1000000 < num (angleFrom (subtract (vertices near_ring ! 0) near_point)
                                (subtract (vertices near_ring ! 3) near_point)) \<and>
   1 / 1000000 < pi - num (angleFrom (subtract (vertices near_ring ! 0) near_point)
                                     (subtract (vertices near_ring ! 3) near_point)) \<and>
   dot (cross (subtract (vertices near_ring ! 0) near_point)
              (subtract (vertices near_ring ! 3) near_point))
       (plane_normal (plane near_ring)) < 0 \<and>
   Vertex_isConvex (1 / 1000000) near_point near_ring = Inr True"
proof -
  let ?A = "subtract (Vec 0 0 0) near_point"
  let ?B = "subtract (Vec 0 4 0) near_point"
  have m: "100 * (dot ?A ?B)\<^sup>2 < 99 * (dot ?A ?A * dot ?B ?B)"
    by (simp add: dot_def subtract_def power2_eq_square)
  from angleFrom_margin [OF _ _ m, of "1 / 1000000"]
  have g: "1 / 1000000 < num (angleFrom ?A ?B)" "1 / 1000000 < pi - num (angleFrom ?A ?B)"
    by simp_all
  have "dot ?A ?A * dot ?B ?B \<noteq> 0" by (simp add: dot_def subtract_def)
  then have nn: "angleFrom ?A ?B \<noteq> None"
    by (simp add: angleFrom_def modulus_def dot_self_nonneg real_sqrt_mult [symmetric] del: real_sqrt_mult)
  have c: "dot (cross ?A ?B) (Vec 0 0 1) < 0"
    by (simp add: dot_def cross_def subtract_def)
  have w: "Vertex_isConvex (1 / 1000000) near_point near_ring = Inr True"
    using near_point_convex [of xy_plane "Vec 4 0 0" "[Vec 4 4 0, Vec 0 4 0]"] by simp
  from near_ring_new g nn c w show ?thesis by simp
qed

section \<open>A vertex that is not in the polygon\<close>

text \<open>
  C7: when no vertex of the main ring of \<open>P\<close> is equal to \<open>v\<close> within the precision,
  \<^verbatim>\<open>v.isConvex(P)\<close> raises the invalid-operation error and returns no value, and
  \<^verbatim>\<open>v.isReflex(P)\<close>, its caller, passes the error on.
\<close>

theorem Vertex_isConvex_absent:
  assumes "\<forall>u\<in>set (vertices P). \<not> eql prec u v"
  shows "Vertex_isConvex prec v P = Inl InvalidOperationError \<and>
         Vertex_isReflex prec v P = Inl InvalidOperationError"
proof -
  from assms have "nodeFor prec P v = None"
    by (simp add: nodeFor_def findNode_None vertexCompare_def)
  then show ?thesis
    by (simp add: Vertex_isConvex_def Vertex_isReflex_def)
qed

theorem Vertex_isConvex_absent_witness:
  "Vertex_isConvex (1 / 1000000) (Vec 5 5 5) unit_square = Inl InvalidOperationError \<and>
   Vertex_isReflex (1 / 1000000) (Vec 5 5 5) unit_square = Inl InvalidOperationError"
  using Vertex_isConvex_absent [of unit_square "1 / 1000000" "Vec 5 5 5"]
  by (simp add: eql_def)

section \<open>Parallel lines\<close>

text \<open>
  C8: for two Lines \<open>L\<close> and \<open>M\<close> that are parallel (the directions are exactly
  parallel, their cross product being zero, or parallel within the global precision as
  \<^verbatim>\<open>isParallelTo\<close> decides), colinear or not, \<^verbatim>\<open>L.intersects(M)\<close> returns false at
  every epsilon and \<^verbatim>\<open>L.intersectionWith(M)\<close> returns null, the value \<open>None\<close>, and
  raises nothing.
\<close>

theorem Line_parallel_no_intersection:
  assumes "0 \<le> prec"
    and "Line_new a1 d1 = Inr L" and "Line_new a2 d2 = Inr M"
    and "cross (line_direction L) (line_direction M) = Vec 0 0 0 \<or> Line_isParallelTo L M prec"
  shows "Line_intersects prec L M epsilon = False \<and> Line_intersectionWith prec L M = None"
proof -
  have "Line_isParallelTo L M prec"
    using assms exact_parallel_isParallelTo Line_new_unit(1) by blast
  then show ?thesis
    by (simp add: Line_intersects_def Line_intersectionWith_def)
qed

theorem Line_parallel_no_intersection_witness:
  "Line_intersects (1/1000000) \<lparr> line_anchor = Vec 0 0 0, line_direction = Vec 1 0 0 \<rparr>
      \<lparr> line_anchor = Vec 0 1 0, line_direction = Vec 1 0 0 \<rparr> (1/1000000) = False \<and>
   Line_intersectionWith (1/1000000) \<lparr> line_anchor = Vec 0 0 0, line_direction = Vec 1 0 0 \<rparr>
      \<lparr> line_anchor = Vec 0 1 0, line_direction = Vec 1 0 0 \<rparr> = None \<and>
   \<not> Line_contains \<lparr> line_anchor = Vec 0 0 0, line_direction = Vec 1 0 0 \<rparr> (Vec 0 1 0) (1/1000000)"
proof -
  have m2: "modulus (Vec 2 0 0) = 2"
    by (simp add: modulus_def dot_def real_sqrt_abs2 [of 2, simplified])
  have m1: "modulus (Vec 1 0 0) = 1"
    by (simp add: modulus_def dot_def)
  have L: "Line_new (Vec 0 0 0) (Vec 1 0 0) = Inr \<lparr> line_anchor = Vec 0 0 0, line_direction = Vec 1 0 0 \<rparr>"
    by (simp add: Line_new_def Let_def m1)
  have M: "Line_new (Vec 0 1 0) (Vec 2 0 0) = Inr \<lparr> line_anchor = Vec 0 1 0, line_direction = Vec 1 0 0 \<rparr>"
    by (simp add: Line_new_def Let_def m2)
  have c: "cross (Vec 1 0 0) (Vec 1 0 0) = Vec 0 0 0"
    by (simp add: cross_def)
  have nc: "\<not> Line_contains \<lparr> line_anchor = Vec 0 0 0, line_direction = Vec 1 0 0 \<rparr> (Vec 0 1 0) (1/1000000)"
    by (simp add: Line_contains_def Line_distanceFrom_point_def Let_def)
  from Line_parallel_no_intersection [OF _ L M, of "1/1000000" "1/1000000"] c nc
  show ?thesis by simp
qed

section \<open>Segment construction\<close>

text \<open>
  C9: for every point \<open>p\<close>, constructing a Segment from \<open>p\<close> to \<open>p\<close> raises the
  dimensionality error of the Line constructor (the direction \<open>end - start\<close> is zero);
  hence a Segment is constructed only when its end points differ, and every Segment
  that was constructed has a length other than zero.
\<close>

theorem Segment_new_degenerate:
  "Segment_new p p = Inl DimensionalityMismatchError \<and>
   Line_new p (subtract p p) = Inl DimensionalityMismatchError \<and>
   (\<forall>s e sg. Segment_new s e = Inr sg \<longrightarrow> s \<noteq> e \<and> Segment_length sg \<noteq> 0)"
proof (intro conjI allI impI)
  show "Segment_new p p = Inl DimensionalityMismatchError"
    by (simp add: Segment_new_error_iff)
  show "Line_new p (subtract p p) = Inl DimensionalityMismatchError"
    by (simp add: Line_new_error_iff subtract_zero_iff)
next
  fix s e sg
  assume ok: "Segment_new s e = Inr sg"
  show "s \<noteq> e"
  proof
    assume "s = e"
    then have "Segment_new s e = Inl DimensionalityMismatchError"
      by (simp add: Segment_new_error_iff)
    with ok show False by simp
  qed
  then have nz: "subtract e s \<noteq> Vec 0 0 0"
    by (simp add: subtract_zero_iff)
  from ok have se: "seg_start sg = s" "seg_end sg = e"
    by (auto simp: Segment_new_def split: sum.splits)
  have "Segment_length sg = modulus (subtract e s)"
    by (simp add: Segment_length_def Let_def se modulus_def dot_def subtract_def)
  with nz show "Segment_length sg \<noteq> 0"
    by (simp add: modulus_zero_iff)
qed

theorem Segment_new_degenerate_witness:
  "Segment_new (Vec 0 0 0) (Vec 2 0 0) =
     Inr \<lparr> seg_line = \<lparr> line_anchor = Vec 0 0 0, line_direction = Vec 1 0 0 \<rparr>,
           seg_start = Vec 0 0 0, seg_end = Vec 2 0 0 \<rparr> \<and>
   Segment_length \<lparr> seg_line = \<lparr> line_anchor = Vec 0 0 0, line_direction = Vec 1 0 0 \<rparr>,
                    seg_start = Vec 0 0 0, seg_end = Vec 2 0 0 \<rparr> \<noteq> 0"
proof -
  have m: "modulus (Vec 2 0 0) = 2"
    by (simp add: modulus_def dot_def real_sqrt_abs2 [of 2, simplified])
  have ok: "Segment_new (Vec 0 0 0) (Vec 2 0 0) =
     Inr \<lparr> seg_line = \<lparr> line_anchor = Vec 0 0 0, line_direction = Vec 1 0 0 \<rparr>,
           seg_start = Vec 0 0 0, seg_end = Vec 2 0 0 \<rparr>"
    by (simp add: Segment_new_def Line_new_def subtract_def Let_def m)
  from Segment_new_degenerate [of "Vec 0 0 0"] ok show ?thesis
    by blast
qed

section \<open>The edge test of containment\<close>

text \<open>
  C10: the edge-rejection step of \<^verbatim>\<open>P.contains(q, e)\<close> is the same for any two epsilon
  values: it is \<^verbatim>\<open>some\<close> over the edges with \<^verbatim>\<open>Segment.contains\<close> at the global
  precision, and the epsilon of the caller reaches only the plane test and the winding
  accumulation. Hence two calls whose epsilons both put \<open>q\<close> in the plane agree whenever
  the edge step rejects or raises.
\<close>

theorem edge_rejection_ignores_epsilon:
  "edge_rejection prec P q eps1 = edge_rejection prec P q eps2 \<and>
   edge_rejection prec P q eps1 = some_edge prec q (edges (vertices P)) \<and>
   containsByWindingNumber prec P q eps1 =
     (if \<not> Plane_contains (plane P) q eps1 then Inr False
      else
        (case some_edge prec q (edges (vertices P)) of
           Inl err \<Rightarrow> Inl err
         | Inr True \<Rightarrow> Inr False
         | Inr False \<Rightarrow>
             Inr (snd (fold (winding_step prec (plane P) q eps1) (edges (vertices P)) (0, 0)) \<noteq> 0))) \<and>
   (Plane_contains (plane P) q eps1 \<and> Plane_contains (plane P) q eps2 \<and>
    edge_rejection prec P q eps1 \<noteq> Inr False \<longrightarrow>
      Polygon_contains prec P q eps1 = Polygon_contains prec P q eps2)"
proof (intro conjI impI)
  show "edge_rejection prec P q eps1 = edge_rejection prec P q eps2"
    by (simp add: edge_rejection_def)
  show "edge_rejection prec P q eps1 = some_edge prec q (edges (vertices P))"
    by (simp add: edge_rejection_def hasEdgeContaining_def)
  show "containsByWindingNumber prec P q eps1 =
     (if \<not> Plane_contains (plane P) q eps1 then Inr False
      else
        (case some_edge prec q (edges (vertices P)) of
           Inl err \<Rightarrow> Inl err
         | Inr True \<Rightarrow> Inr False
         | Inr False \<Rightarrow>
             Inr (snd (fold (winding_step prec (plane P) q eps1) (edges (vertices P)) (0, 0)) \<noteq> 0)))"
    by (simp add: edge_rejection_def hasEdgeContaining_def containsByWindingNumber_def)
next
  assume h: "Plane_contains (plane P) q eps1 \<and> Plane_contains (plane P) q eps2 \<and>
    edge_rejection prec P q eps1 \<noteq> Inr False"
  show "Polygon_contains prec P q eps1 = Polygon_contains prec P q eps2"
  proof (cases "hasEdgeContaining prec P q")
    case (Inl err)
    with h show ?thesis
      by (simp add: Polygon_contains_def containsByWindingNumber_def edge_rejection_def)
  next
    case (Inr b)
    with h have "b" by (simp add: edge_rejection_def)
    with Inr h show ?thesis
      by (simp add: Polygon_contains_def containsByWindingNumber_def edge_rejection_def)
  qed
qed

theorem edge_rejection_ignores_epsilon_witness:
  "Polygon_contains (1 / 1000000) unit_square (Vec (1 / 2) 0 0) (1 / 1000000) =
   Polygon_contains (1 / 1000000) unit_square (Vec (1 / 2) 0 0) 1 \<and>
   Plane_contains (plane unit_square) (Vec (1 / 2) 0 0) (1 / 1000000) \<and>
   Plane_contains (plane unit_square) (Vec (1 / 2) 0 0) 1 \<and>
   edge_rejection (1 / 1000000) unit_square (Vec (1 / 2) 0 0) (1 / 1000000) = Inr True"
proof -
  have p: "Plane_contains (plane unit_square) (Vec (1 / 2) 0 0) (1 / 1000000)"
    "Plane_contains (plane unit_square) (Vec (1 / 2) 0 0) 1"
    by (simp_all add: Plane_contains_def dot_def subtract_def)
  have s: "Segment_new (Vec 0 0 0) (Vec 1 0 0) =
      Inr \<lparr> seg_line = \<lparr> line_anchor = Vec 0 0 0, line_direction = Vec 1 0 0 \<rparr>,
            seg_start = Vec 0 0 0, seg_end = Vec 1 0 0 \<rparr>"
    by (simp add: Segment_new_def Line_new_def subtract_def modulus_def dot_def)
  have "Segment_contains (1 / 1000000)
      \<lparr> seg_line = \<lparr> line_anchor = Vec 0 0 0, line_direction = Vec 1 0 0 \<rparr>,
        seg_start = Vec 0 0 0, seg_end = Vec 1 0 0 \<rparr> (Vec (1 / 2) 0 0)"
    by (rule Segment_contains_on [OF s, where t = "1 / 2"]) simp_all
  with s have e: "edge_rejection (1 / 1000000) unit_square (Vec (1 / 2) 0 0) (1 / 1000000) = Inr True"
    by (simp add: edge_rejection_def hasEdgeContaining_def unit_square_edges)
  from edge_rejection_ignores_epsilon
    [of "1 / 1000000" unit_square "Vec (1 / 2) 0 0" "1 / 1000000" 1] p e
  show ?thesis by simp
qed

end
